theory Spec2Isabelle
  imports Complex_Main "HOL-Library.Sublist"
begin

section \<open>The terminal adventure game of \<open>main.py\<close>\<close>

text \<open>
  The program is a text adventure: a set of mutually recursive Python functions that print
  narration, read lines from standard input, draw random numbers and update one
  \<open>GameState\<close> object. Each Python function is one HOL function of the same name.
  Everything the program does to its surroundings is explicit in a \<open>world\<close>: the lines still
  waiting on standard input, the random generator, and a trace of the effects performed so
  far. A call ends in one of three ways: it returns, the process exits through
  \<open>sys.exit()\<close>, or \<open>input()\<close> raises \<open>EOFError\<close> because standard input is exhausted.
\<close>

subsection \<open>GameState\<close>

record game_state =
  score :: int
  has_fire_armor :: bool

text \<open>\<open>GameState.__init__\<close>: the value of a freshly constructed object.\<close>

definition GameState :: game_state where
  "GameState = \<lparr>score = 10, has_fire_armor = False\<rparr>"

text \<open>
  A method receives \<open>self\<close> and yields its return value together with \<open>self\<close> as the call
  leaves it, so that a method which assigns to a field and one which does not are told
  apart by what they return.
\<close>

definition modify_score :: "game_state \<Rightarrow> int \<Rightarrow> int \<times> game_state" where
  "modify_score self amount =
     (let self' = self\<lparr>score := score self + amount\<rparr> in (score self', self'))"

definition is_game_over :: "game_state \<Rightarrow> bool \<times> game_state" where
  "is_game_over self = (score self \<le> 0, self)"

subsection \<open>Effects, the world and results\<close>

text \<open>
  One entry of the trace per effect, in program order. \<open>Typed t\<close> is one call
  \<open>type_text(t)\<close> (the per-character writes and 0.05 s pauses of that call are summarised
  by the single entry), \<open>Printed t\<close> is \<open>print(t)\<close>, \<open>Prompted p\<close> is the prompt written by
  \<open>input(p)\<close>, \<open>Slept s\<close> is \<open>time.sleep(s)\<close>, \<open>Cleared\<close> is \<open>os.system('cls||clear')\<close>.
  The last three constructors record the life of game state objects: \<open>Created g\<close> is a call
  of the constructor \<open>GameState()\<close> with the new object's value, \<open>Score_written g\<close> and
  \<open>Armor_written g\<close> are an assignment to the field \<open>score\<close> respectively
  \<open>has_fire_armor\<close>, with the object's value after the assignment.
\<close>

datatype effect =
    Typed string
  | Printed string
  | Prompted string
  | Slept real
  | Cleared
  | Created game_state
  | Score_written game_state
  | Armor_written game_state

text \<open>
  \<open>stdin\<close> holds the lines not yet read (without their newline). The random generator is a
  parameter of the model: \<open>rng k\<close> is the raw 53-bit outcome of its \<open>k\<close>-th use and \<open>drawn\<close>
  counts the uses so far.
\<close>

record world =
  stdin :: "string list"
  rng :: "nat \<Rightarrow> nat"
  drawn :: nat
  trace :: "effect list"

datatype 'a result = Return 'a world | SysExit int world | EOFError world

definition final :: "'a result \<Rightarrow> world" where
  "final r = (case r of Return x w \<Rightarrow> w | SysExit n w \<Rightarrow> w | EOFError w \<Rightarrow> w)"

fun returned :: "'a result \<Rightarrow> bool" where
  "returned (Return x w) = True"
| "returned (SysExit n w) = False"
| "returned (EOFError w) = False"

text \<open>Sequencing: an exit or an exception of the first part skips the rest.\<close>

definition bind :: "'a result \<Rightarrow> ('a \<Rightarrow> world \<Rightarrow> 'b result) \<Rightarrow> 'b result" where
  "bind m f =
     (case m of
        Return x w \<Rightarrow> f x w
      | SysExit n w \<Rightarrow> SysExit n w
      | EOFError w \<Rightarrow> EOFError w)"

lemma bind_cong [fundef_cong]:
  "m = m' \<Longrightarrow> (\<And>x w. m' = Return x w \<Longrightarrow> f x w = f' x w) \<Longrightarrow> bind m f = bind m' f'"
  by (auto simp: bind_def split: result.splits)

lemma bind_weak_cong: "m = m' \<Longrightarrow> bind m f = bind m' f"
  by simp

lemma bind_simps [simp]:
  "bind (Return x w) f = f x w"
  "bind (SysExit n w) f = SysExit n w"
  "bind (EOFError w) f = EOFError w"
  by (simp_all add: bind_def)

lemma final_simps [simp]:
  "final (Return x w) = w"
  "final (SysExit n w) = w"
  "final (EOFError w) = w"
  by (simp_all add: final_def)

subsection \<open>Library calls\<close>

definition emit :: "effect \<Rightarrow> world \<Rightarrow> world" where
  "emit e w = w\<lparr>trace := trace w @ [e]\<rparr>"

definition time_sleep :: "real \<Rightarrow> world \<Rightarrow> world" where
  "time_sleep secs w = emit (Slept secs) w"

definition print :: "string \<Rightarrow> world \<Rightarrow> world" where
  "print text w = emit (Printed text) w"

definition clear_screen :: "world \<Rightarrow> world" where
  "clear_screen w = emit Cleared w"

text \<open>\<open>input(prompt)\<close> writes the prompt, then reads a line or raises \<open>EOFError\<close>.\<close>

definition input :: "string \<Rightarrow> world \<Rightarrow> string result" where
  "input prompt w =
     (case stdin w of
        [] \<Rightarrow> EOFError (emit (Prompted prompt) w)
      | line # rest \<Rightarrow> Return line ((emit (Prompted prompt) w)\<lparr>stdin := rest\<rparr>))"

text \<open>\<open>sys.exit()\<close> without an argument: exit status 0.\<close>

definition sys_exit :: "world \<Rightarrow> 'a result" where
  "sys_exit w = SysExit 0 w"

text \<open>
  \<open>random.random()\<close> is a multiple of \<open>2^-53\<close> in \<open>[0, 1)\<close>; \<open>random.choice(seq)\<close> picks the
  element at the position that uniform value falls on.
\<close>

definition random_random :: "world \<Rightarrow> real result" where
  "random_random w =
     Return (real (rng w (drawn w) mod 2 ^ 53) / 2 ^ 53) (w\<lparr>drawn := Suc (drawn w)\<rparr>)"

definition random_choice :: "'a list \<Rightarrow> world \<Rightarrow> 'a result" where
  "random_choice seq w =
     bind (random_random w) (\<lambda>u w. Return (seq ! nat \<lfloor>u * real (length seq)\<rfloor>) w)"

text \<open>
  Strings are byte strings; a character outside ASCII is its UTF-8 bytes. \<open>str.lower\<close> and
  \<open>str.upper\<close> are modelled on the ASCII letters, which is all the comparisons of the
  program depend on.
\<close>

definition lower_char :: "char \<Rightarrow> char" where
  "lower_char c =
     (case map_of (zip ''ABCDEFGHIJKLMNOPQRSTUVWXYZ'' ''abcdefghijklmnopqrstuvwxyz'') c of
        Some d \<Rightarrow> d
      | None \<Rightarrow> c)"

definition upper_char :: "char \<Rightarrow> char" where
  "upper_char c =
     (case map_of (zip ''abcdefghijklmnopqrstuvwxyz'' ''ABCDEFGHIJKLMNOPQRSTUVWXYZ'') c of
        Some d \<Rightarrow> d
      | None \<Rightarrow> c)"

definition lower :: "string \<Rightarrow> string" where
  "lower s = map lower_char s"

definition upper :: "string \<Rightarrow> string" where
  "upper s = map upper_char s"

fun join :: "string \<Rightarrow> string list \<Rightarrow> string" where
  "join sep [] = []"
| "join sep [x] = x"
| "join sep (x # y # ys) = x @ sep @ join sep (y # ys)"

text \<open>\<open>a or b\<close> on an optional string: \<open>None\<close> and the empty string are both falsy.\<close>

fun py_or :: "string option \<Rightarrow> string \<Rightarrow> string" where
  "py_or None d = d"
| "py_or (Some s) d = (if s = [] then d else s)"

subsection \<open>Presentation and input helpers\<close>

definition type_text :: "string \<Rightarrow> world \<Rightarrow> world" where
  "type_text text w = emit (Typed text) w"

definition print_pause :: "string \<Rightarrow> world \<Rightarrow> world" where
  "print_pause text w = time_sleep 1.5 (type_text text w)"

definition print_lines_with_pause :: "string list \<Rightarrow> real \<Rightarrow> world \<Rightarrow> world" where
  "print_lines_with_pause lines pause_time w =
     fold (\<lambda>line w. time_sleep pause_time (type_text line w)) lines w"

lemma input_consumes:
  "input prompt w = Return line w' \<Longrightarrow> length (stdin w') < length (stdin w)"
  by (auto simp: input_def emit_def split: list.splits)

text \<open>The \<open>while True\<close> loop of \<open>get_valid_input\<close>: every iteration reads one line.\<close>

function get_valid_input ::
  "string \<Rightarrow> string list \<Rightarrow> string option \<Rightarrow> world \<Rightarrow> string result" where
  "get_valid_input prompt valid_options error_msg w =
     bind (input prompt w) (\<lambda>line w.
       let user_input = lower line in
       if user_input \<in> set valid_options then Return user_input w
       else
         let error_text =
           py_or error_msg (''Invalid choice. Choose: '' @ join '', '' valid_options)
         in get_valid_input prompt valid_options error_msg (print error_text w))"
  by pat_completeness auto
termination
  by (relation "measure (\<lambda>(p, v, e, w). length (stdin w))")
     (auto dest: input_consumes simp: print_def emit_def)

declare get_valid_input.simps [simp del]

subsection \<open>What \<open>get_valid_input\<close> computes\<close>

text \<open>
  The specification's description of \<open>getValidInput\<close>, written as a closed form: the lines
  that are not valid after lower-casing are skipped, each of them answered by the prompt
  and the error message; the first valid line is returned lower-cased after a last prompt;
  if no line is valid the input ends while the prompt is showing.
\<close>

definition error_text :: "string list \<Rightarrow> string option \<Rightarrow> string" where
  "error_text valid_options error_msg =
     py_or error_msg (''Invalid choice. Choose: '' @ join '', '' valid_options)"

definition invalid :: "string list \<Rightarrow> string \<Rightarrow> bool" where
  "invalid valid_options line = (lower line \<notin> set valid_options)"

definition reprompts ::
  "string \<Rightarrow> string list \<Rightarrow> string option \<Rightarrow> string list \<Rightarrow> effect list" where
  "reprompts prompt valid_options error_msg lines =
     concat (map (\<lambda>line. [Prompted prompt, Printed (error_text valid_options error_msg)])
       (takeWhile (invalid valid_options) lines)) @ [Prompted prompt]"

definition get_valid_input_spec ::
  "string \<Rightarrow> string list \<Rightarrow> string option \<Rightarrow> world \<Rightarrow> string result" where
  "get_valid_input_spec prompt valid_options error_msg w =
     (let w' = w\<lparr>trace := trace w @ reprompts prompt valid_options error_msg (stdin w)\<rparr>
      in case dropWhile (invalid valid_options) (stdin w) of
           [] \<Rightarrow> EOFError (w'\<lparr>stdin := []\<rparr>)
         | line # rest \<Rightarrow> Return (lower line) (w'\<lparr>stdin := rest\<rparr>))"

lemma get_valid_input_refines:
  "get_valid_input prompt valid_options error_msg w =
   get_valid_input_spec prompt valid_options error_msg w"
proof (induction "stdin w" arbitrary: w)
  case Nil
  then show ?case
    by (subst get_valid_input.simps)
       (simp add: get_valid_input_spec_def reprompts_def input_def emit_def)
next
  case (Cons line rest)
  note st = Cons.hyps(2)[symmetric]
  show ?case
  proof (cases "invalid valid_options line")
    case False
    then show ?thesis using st
      by (subst get_valid_input.simps)
         (simp add: get_valid_input_spec_def reprompts_def input_def emit_def invalid_def)
  next
    case True
    let ?w1 = "print (error_text valid_options error_msg)
                 ((emit (Prompted prompt) w)\<lparr>stdin := rest\<rparr>)"
    have "rest = stdin ?w1"
      by (simp add: print_def emit_def)
    from Cons.hyps(1)[OF this]
    have IH: "get_valid_input prompt valid_options error_msg ?w1 =
          get_valid_input_spec prompt valid_options error_msg ?w1" .
    have step: "get_valid_input prompt valid_options error_msg w =
          get_valid_input prompt valid_options error_msg ?w1"
      using True st
      by (subst get_valid_input.simps)
         (simp add: input_def invalid_def error_text_def Let_def)
    have spec: "get_valid_input_spec prompt valid_options error_msg w =
          get_valid_input_spec prompt valid_options error_msg ?w1"
      using True st
      by (simp add: get_valid_input_spec_def reprompts_def print_def emit_def Let_def
            cong: list.case_cong)
    from step IH spec show ?thesis by simp
  qed
qed

lemma get_valid_input_Return:
  assumes "get_valid_input prompt valid_options error_msg w = Return c w'"
  shows "c \<in> set valid_options"
    and "length (stdin w') < length (stdin w)"
    and "trace w' = trace w @ reprompts prompt valid_options error_msg (stdin w)"
    and "rng w' = rng w"
    and "drawn w' = drawn w"
proof -
  let ?d = "dropWhile (invalid valid_options) (stdin w)"
  from assms obtain line rest where d: "?d = line # rest"
    and c: "c = lower line"
    and w': "w' = w\<lparr>trace := trace w @ reprompts prompt valid_options error_msg (stdin w),
                     stdin := rest\<rparr>"
    by (cases ?d) (simp_all add: get_valid_input_refines get_valid_input_spec_def Let_def)
  from d have "?d \<noteq> []" by simp
  from hd_dropWhile[OF this] d have "\<not> invalid valid_options line" by simp
  with c show "c \<in> set valid_options" by (simp add: invalid_def)
  have "length ?d \<le> length (stdin w)" by (rule length_dropWhile_le)
  with d w' show "length (stdin w') < length (stdin w)" by simp
  from w' show "trace w' = trace w @ reprompts prompt valid_options error_msg (stdin w)"
    and "rng w' = rng w" and "drawn w' = drawn w"
    by simp_all
qed

lemma get_valid_input_final:
  "trace (final (get_valid_input prompt valid_options error_msg w)) =
     trace w @ reprompts prompt valid_options error_msg (stdin w)"
  "length (stdin (final (get_valid_input prompt valid_options error_msg w))) \<le> length (stdin w)"
proof -
  show "trace (final (get_valid_input prompt valid_options error_msg w)) =
     trace w @ reprompts prompt valid_options error_msg (stdin w)"
    by (simp add: get_valid_input_refines get_valid_input_spec_def Let_def split: list.split)
  have "length (dropWhile (invalid valid_options) (stdin w)) \<le> length (stdin w)"
    by (rule length_dropWhile_le)
  then show "length (stdin (final (get_valid_input prompt valid_options error_msg w)))
      \<le> length (stdin w)"
    by (auto simp: get_valid_input_refines get_valid_input_spec_def Let_def split: list.split)
qed

lemma get_valid_input_no_exit:
  "get_valid_input prompt valid_options error_msg w \<noteq> SysExit n w'"
  by (simp add: get_valid_input_refines get_valid_input_spec_def Let_def split: list.split)

subsection \<open>The scenes\<close>

text \<open>One entry of the list \<open>questions\<close> in \<open>start_trivia_game\<close>.\<close>

record trivia =
  question :: string
  options :: string
  answer :: string

definition questions :: "trivia list" where
  "questions =
     [\<lparr>question = ''What does CPU stand for?'',
       options = ''A) Central Processing Unit  B) Computer Personal Unit  '' @
                 ''C) Central Peripheral Unit'',
       answer = ''a''\<rparr>,
      \<lparr>question = ''Which of these is an OS?'',
       options = ''A) Python  B) Linux  C) HTML'',
       answer = ''b''\<rparr>,
      \<lparr>question = ''What does RAM stand for?'',
       options = ''A) Random Access Memory  B) Readily Available Memory  '' @
                 ''C) Rapid Action Module'',
       answer = ''a''\<rparr>]"

text \<open>A call of the constructor: the new object, recorded in the trace.\<close>

definition new_GameState :: "world \<Rightarrow> game_state result" where
  "new_GameState w = Return GameState (emit (Created GameState) w)"

definition intro :: "game_state \<Rightarrow> world \<Rightarrow> world" where
  "intro game_state w =
     print_lines_with_pause
       [''You wake up in a strange, dark place with tangled wires.'',
        ''As you wander a bit, you begin to realize you're inside a...'',
        ''Computer system.''] 1.5
       (time_sleep 1 w)"

definition show_path_choices :: "world \<Rightarrow> world" where
  "show_path_choices w =
     print_lines_with_pause
       [''Ahead of you, there are two paths:'',
        ''1. A corridor with a red light labeled 'Firewall.'' @ [CHR 0x27],
        ''2. A pitch black tunnel labeled 'Core Access.'' @ [CHR 0x27]] 1.5 w"

text \<open>
  \<open>handle_jump_sequence\<close> receives the function to continue with. The only function the
  program ever passes is \<open>handle_firewall_obstacle\<close>, so the parameter ranges over a
  one-element type of function names.
\<close>

datatype callback = Handle_firewall_obstacle

text \<open>
  The scene functions, one equation per Python function. The \<open>while True\<close> loops of
  \<open>handle_firewall_obstacle\<close> and \<open>handle_fan_obstacle\<close> start after some narration and
  are the functions \<open>firewall_obstacle_loop\<close> and \<open>fan_obstacle_loop\<close>; the loop of
  \<open>main_game_loop\<close> is the whole function. A function returns the caller's game state
  object as it is after the call. \<open>reset_game\<close> rebinds its parameter to a new object, so
  the caller's object is untouched by it.
\<close>

function
  handle_play_again :: "game_state \<Rightarrow> bool \<Rightarrow> world \<Rightarrow> game_state result" and
  reset_game :: "game_state \<Rightarrow> world \<Rightarrow> game_state result" and
  handle_jump_sequence :: "callback \<Rightarrow> game_state \<Rightarrow> world \<Rightarrow> game_state result" and
  enter_firewall_path :: "game_state \<Rightarrow> world \<Rightarrow> game_state result" and
  handle_bridge_crossing :: "game_state \<Rightarrow> world \<Rightarrow> game_state result" and
  handle_firewall_obstacle :: "game_state \<Rightarrow> world \<Rightarrow> game_state result" and
  firewall_obstacle_loop :: "game_state \<Rightarrow> world \<Rightarrow> game_state result" and
  handle_fan_obstacle :: "game_state \<Rightarrow> world \<Rightarrow> game_state result" and
  fan_obstacle_loop :: "game_state \<Rightarrow> world \<Rightarrow> game_state result" and
  enter_core_access :: "game_state \<Rightarrow> world \<Rightarrow> game_state result" and
  handle_random_event :: "game_state \<Rightarrow> world \<Rightarrow> game_state result" and
  return_to_core_access :: "game_state \<Rightarrow> world \<Rightarrow> game_state result" and
  start_trivia_game :: "game_state \<Rightarrow> world \<Rightarrow> game_state result" and
  main_game_loop :: "game_state \<Rightarrow> world \<Rightarrow> game_state result"
where
  "handle_play_again game_state is_ending w =
     (let prompt =
        (if is_ending then ''Would you like to play again? (Y/N): ''
         else ''You lost, play again? (Y/N): '')
      in bind (get_valid_input prompt [''y'', ''n'', ''''] None w) (\<lambda>choice w.
           if choice \<in> set [''y'', ''''] then reset_game game_state (time_sleep 0.5 w)
           else sys_exit (type_text ''Thanks for playing!'' w)))"
| "reset_game game_state w =
     bind (new_GameState w) (\<lambda>game_state' w.
       let w = clear_screen w;
           w = intro game_state' w
       in bind (main_game_loop game_state' w) (\<lambda>game_state' w. Return game_state w))"
| "handle_jump_sequence success_callback game_state w =
     (let w = type_text ''Type \"JUMP\" to jump to the opposite side'' w
      in bind (input ''> '' w) (\<lambda>line w.
           let user_input = upper line in
           if user_input = ''JUMP'' then
             (let w = print ''Phew, that was really close!'' w;
                  w = time_sleep 0.5 w
              in case success_callback of
                   Handle_firewall_obstacle \<Rightarrow> handle_firewall_obstacle game_state w)
           else
             (let w = print ''Looks like you made a typo.'' w
              in handle_play_again game_state False w)))"
| "enter_firewall_path game_state w =
     (if has_fire_armor game_state then
        (let w = print_lines_with_pause
                   [''You walk back into the corridor.'',
                    ''You need to jump high this time; the bridge is broken.''] 1.5 w
         in handle_jump_sequence Handle_firewall_obstacle game_state w)
      else
        (let w = print_lines_with_pause
                   [''You walk into the long, creepy corridor...'',
                    ''You must cross a bridge with lava underneath.''] 1.5 w;
             prompt = ''It sounds risky. Will you do it? (Y/N): ''
         in bind (get_valid_input prompt [''y'', ''n''] None w) (\<lambda>choice w.
              if choice = ''y'' then handle_bridge_crossing game_state w
              else Return game_state (print_pause ''You decided not to risk it and go back.'' w))))"
| "handle_bridge_crossing game_state w =
     (let w = print_lines_with_pause
                [''You're halfway across the bridge, but something feels off...'',
                 ''..'',
                 ''...''] 1.5 w
      in handle_jump_sequence Handle_firewall_obstacle game_state w)"
| "handle_firewall_obstacle game_state w =
     (let w = print_pause ''You make it across the bridge.'' w in
      if has_fire_armor game_state then
        (let w = print_lines_with_pause
                   [''The huge wall of fire blocks your path again, but you're ready.'',
                    ''You step forward into the fire..'',
                    ''It was hot, but you survived!'',
                    ''You've unlocked the 'Wall Of Fire' ending!''] 1.5 w;
             w = type_text ''Thanks for playing!'' w
         in handle_play_again game_state True w)
      else
        (let w = print_lines_with_pause
                   [''A huge wall of fire is blocking your path.'',
                    ''The heat is overwhelming'' @ [CHR 0xE2, CHR 0x80, CHR 0x94] @
                      ''you can't pass through.'',
                    ''There has to be a way through, right?''] 1.5 w
         in firewall_obstacle_loop game_state w))"
| "firewall_obstacle_loop game_state w =
     (let w = print ''Do you want to:'' w;
          w = print ''1. Risk walking through the fire'' w;
          w = print ''2. Go back'' w
      in bind (get_valid_input ''> '' [''1'', ''2''] None w) (\<lambda>choice w.
           if choice = ''1'' then
             (let w = print_lines_with_pause
                        [''You step into the fire..'',
                         ''The heat is unbearable.''] 1.5 w
              in bind (random_random w) (\<lambda>u w.
                 if u < 0.5 then
                   (let w = print_lines_with_pause
                              [''Lucky day! You emerge on the other side,'',
                               ''smoking but alive!'',
                               ''You've unlocked the 'Wall Of Fire' ending!''] 1.5 w;
                        w = type_text ''Thanks for playing!'' w
                    in handle_play_again game_state True w)
                 else
                   (let w = print_pause ''Within seconds, your body gives in.'' w
                    in handle_play_again game_state False w)))
           else if choice = ''2'' then
             Return game_state (print_pause ''You decided to go back.'' w)
           else firewall_obstacle_loop game_state w))"
| "handle_fan_obstacle game_state w =
     (let w = print_lines_with_pause
                [''The temperature rises the further you walk...'',
                 ''A large fan blocks your path!'',
                 ''Its blades spin dangerously fast.''] 1.5 w
      in fan_obstacle_loop game_state w)"
| "fan_obstacle_loop game_state w =
     (let w = print ''Do you want to:'' w;
          w = print ''1. Try to jump through the fan'' w;
          w = print ''2. Go back'' w
      in bind (get_valid_input ''> '' [''1'', ''2''] None w) (\<lambda>choice w.
           if choice = ''1'' then
             (let w = print_lines_with_pause
                        [''You take a deep breath and prepare to jump...'',
                         ''This is going to be risky!''] 1.5 w
              in bind (random_random w) (\<lambda>u w.
                 if u < 0.5 then
                   (let w = print_lines_with_pause
                              [''Perfect timing! You pass through safely!'',
                               ''You've unlocked the 'Spinning Blades' ending!''] 1.5 w;
                        w = type_text ''Thanks for playing!'' w
                    in handle_play_again game_state True w)
                 else
                   (let w = print_pause ''The fan's blades were too fast...'' w
                    in handle_play_again game_state False w)))
           else if choice = ''2'' then
             (let w = print_pause ''You decide to go back to the main area.'' w
              in main_game_loop game_state w)
           else fan_obstacle_loop game_state w))"
| "enter_core_access game_state w =
     (let w = print_pause ''You enter the Core Access tunnel.'' w in
      if has_fire_armor game_state then
        (let w = print_pause ''You continue on your way.'' w
         in handle_fan_obstacle game_state w)
      else
        (let w = print_pause ''It's dark and quiet, but you spot a button...'' w;
             prompt = ''Do you press the button? (Y/N): ''
         in bind (get_valid_input prompt [''y'', ''n''] None w) (\<lambda>choice w.
              if choice = ''y'' then handle_random_event game_state w
              else
                (let w = print_pause ''You don't press the button and continue.'' w
                 in handle_fan_obstacle game_state w))))"
| "handle_random_event game_state w =
     bind (random_choice [''explosion'', ''door_open''] w) (\<lambda>event w.
      if event = ''explosion'' then
        (let w = print_lines_with_pause
                   [''You feel the ground shaking heavily...'',
                    ''What's that sound?'',
                    ''..'',
                    ''IT'S AN EXPLOSIO- '' @ [CHR 0xF0, CHR 0x9F, CHR 0x92, CHR 0xA5]] 1.5 w
         in handle_play_again game_state False w)
      else
        (let w = print_lines_with_pause
                   [''The button opens a hidden door in the wall...'',
                    ''You step through and find a shining fire protection armor!''] 1.5 w
         in start_trivia_game game_state w))"
| "return_to_core_access game_state w =
     (let prompt = ''Go to the firewall corridor? (Y/N): ''
      in bind (get_valid_input prompt [''y'', ''n''] None w) (\<lambda>choice w.
           if choice = ''y'' then enter_firewall_path game_state w
           else
             (let w = print_lines_with_pause
                        [''You're back in the Core Access tunnel.'',
                         ''You try to locate the button again...'',
                         ''But it's vanished. You continue on.''] 1.5 w
              in handle_fan_obstacle game_state w)))"
| "start_trivia_game game_state w =
     (let w = print_pause ''To claim it, pass a fun trivia question.'' w
      in bind (random_choice questions w) (\<lambda>question w.
      let w = print_pause (trivia.question question) w;
          w = print (options question) w
      in bind (get_valid_input ''> '' [''a'', ''b'', ''c''] None w) (\<lambda>user_input w.
           bind
             (if user_input = answer question then
                (let w = print_lines_with_pause
                           [''Correct! You've earned the fire protection armor.'',
                            ''Now revisit the firewall...''] 1.5 w;
                     (_, game_state) = modify_score game_state 5;
                     w = emit (Score_written game_state) w;
                     game_state = game_state\<lparr>has_fire_armor := True\<rparr>;
                     w = emit (Armor_written game_state) w
                 in Return game_state w)
              else
                (let w = print_lines_with_pause
                           [''Incorrect! The armor stays locked.'',
                            ''The floor splits open!''] 1.5 w;
                     (_, game_state) = modify_score game_state (- 5);
                     w = emit (Score_written game_state) w
                 in Return game_state w))
             (\<lambda>game_state w. return_to_core_access game_state w))))"
| "main_game_loop game_state w =
     (let w = show_path_choices w;
          (over, game_state) = is_game_over game_state
      in bind (if over then handle_play_again game_state False w else Return game_state w)
           (\<lambda>game_state w.
         bind (get_valid_input ''Where do you go from here? The choice is yours: ''
                 [''1'', ''2''] None w) (\<lambda>choice w.
         bind (if choice = ''1'' then enter_firewall_path game_state w
               else if choice = ''2'' then enter_core_access game_state w
               else Return game_state w) (\<lambda>game_state w.
         main_game_loop game_state w))))"
  by pat_completeness auto

subsection \<open>Termination: every cycle of calls reads input\<close>

text \<open>
  Between two entries of \<open>main_game_loop\<close>, and around every other cycle of the call graph,
  at least one line is read, so on a finite input every run ends: in \<open>sys.exit()\<close> or in
  \<open>EOFError\<close>. The loop of \<open>main_game_loop\<close> continues in the world a scene returned, so
  the argument first needs that no scene ever gives lines back to the input.
\<close>

definition unread :: "'a result \<Rightarrow> nat" where
  "unread r = length (stdin (final r))"

lemma unread_simps [simp]:
  "unread (Return x w) = length (stdin w)"
  "unread (SysExit n w) = length (stdin w)"
  "unread (EOFError w) = length (stdin w)"
  "unread (sys_exit w :: 'a result) = length (stdin w)"
  by (simp_all add: unread_def sys_exit_def)

lemma stdin_emit [simp]: "stdin (emit e w) = stdin w"
  by (simp add: emit_def)

lemma stdin_fold_emit:
  "stdin (fold (\<lambda>line w. emit (Slept p) (emit (Typed line) w)) ls w) = stdin w"
  by (induction ls arbitrary: w) simp_all

lemma stdin_library [simp]:
  "stdin (time_sleep s w) = stdin w"
  "stdin (type_text t w) = stdin w"
  "stdin (print t w) = stdin w"
  "stdin (clear_screen w) = stdin w"
  "stdin (print_lines_with_pause ls p w) = stdin w"
  by (simp_all add: time_sleep_def type_text_def print_def clear_screen_def
        print_lines_with_pause_def stdin_fold_emit)

lemma stdin_presentation [simp]:
  "stdin (print_pause t w) = stdin w"
  "stdin (intro gs w) = stdin w"
  "stdin (show_path_choices w) = stdin w"
  by (simp_all add: print_pause_def intro_def show_path_choices_def)

lemma unread_bind:
  assumes "unread m \<le> n"
    and "\<And>x w'. m = Return x w' \<Longrightarrow> length (stdin w') \<le> n \<Longrightarrow> unread (f x w') \<le> n"
  shows "unread (bind m f) \<le> n"
  using assms by (cases m) simp_all

lemma unread_input_le:
  "length (stdin w) \<le> n \<Longrightarrow> unread (input prompt w) \<le> n"
  by (auto simp: input_def split: list.splits)

lemma unread_get_valid_input_le:
  "length (stdin w) \<le> n \<Longrightarrow> unread (get_valid_input prompt valid_options error_msg w) \<le> n"
  using get_valid_input_final(2)[of prompt valid_options error_msg w]
  by (simp add: unread_def)

lemma unread_random_le:
  "length (stdin w) \<le> n \<Longrightarrow> unread (random_random w) \<le> n"
  "length (stdin w) \<le> n \<Longrightarrow> unread (random_choice seq w) \<le> n"
  "length (stdin w) \<le> n \<Longrightarrow> unread (new_GameState w) \<le> n"
  by (simp_all add: random_random_def random_choice_def new_GameState_def)

lemmas game_pinduct =
  handle_play_again_reset_game_handle_jump_sequence_enter_firewall_path_handle_bridge_crossing_handle_firewall_obstacle_firewall_obstacle_loop_handle_fan_obstacle_fan_obstacle_loop_enter_core_access_handle_random_event_return_to_core_access_start_trivia_game_main_game_loop.pinduct

abbreviation game_dom where
  "game_dom \<equiv> handle_play_again_reset_game_handle_jump_sequence_enter_firewall_path_handle_bridge_crossing_handle_firewall_obstacle_firewall_obstacle_loop_handle_fan_obstacle_fan_obstacle_loop_enter_core_access_handle_random_event_return_to_core_access_start_trivia_game_main_game_loop_dom"

text \<open>
  The same script settles each of the fourteen functions: unfold the function once, take
  the body apart along its sequencing and its branches, and close every call by the
  induction hypothesis for it.
\<close>

lemma game_unread_partial:
  "game_dom (Inl (Inl (Inl (gs, b, w)))) \<Longrightarrow> length (stdin w) \<le> n \<Longrightarrow> unread (handle_play_again gs b w) \<le> n"
  "game_dom (Inl (Inl (Inr (Inl (gs, w))))) \<Longrightarrow> length (stdin w) \<le> n \<Longrightarrow> unread (reset_game gs w) \<le> n"
  "game_dom (Inl (Inl (Inr (Inr (cb, gs, w))))) \<Longrightarrow> length (stdin w) \<le> n \<Longrightarrow> unread (handle_jump_sequence cb gs w) \<le> n"
  "game_dom (Inl (Inr (Inl (Inl (gs, w))))) \<Longrightarrow> length (stdin w) \<le> n \<Longrightarrow> unread (enter_firewall_path gs w) \<le> n"
  "game_dom (Inl (Inr (Inl (Inr (gs, w))))) \<Longrightarrow> length (stdin w) \<le> n \<Longrightarrow> unread (handle_bridge_crossing gs w) \<le> n"
  "game_dom (Inl (Inr (Inr (Inl (gs, w))))) \<Longrightarrow> length (stdin w) \<le> n \<Longrightarrow> unread (handle_firewall_obstacle gs w) \<le> n"
  "game_dom (Inl (Inr (Inr (Inr (gs, w))))) \<Longrightarrow> length (stdin w) \<le> n \<Longrightarrow> unread (firewall_obstacle_loop gs w) \<le> n"
  "game_dom (Inr (Inl (Inl (gs, w)))) \<Longrightarrow> length (stdin w) \<le> n \<Longrightarrow> unread (handle_fan_obstacle gs w) \<le> n"
  "game_dom (Inr (Inl (Inr (Inl (gs, w))))) \<Longrightarrow> length (stdin w) \<le> n \<Longrightarrow> unread (fan_obstacle_loop gs w) \<le> n"
  "game_dom (Inr (Inl (Inr (Inr (gs, w))))) \<Longrightarrow> length (stdin w) \<le> n \<Longrightarrow> unread (enter_core_access gs w) \<le> n"
  "game_dom (Inr (Inr (Inl (Inl (gs, w))))) \<Longrightarrow> length (stdin w) \<le> n \<Longrightarrow> unread (handle_random_event gs w) \<le> n"
  "game_dom (Inr (Inr (Inl (Inr (gs, w))))) \<Longrightarrow> length (stdin w) \<le> n \<Longrightarrow> unread (return_to_core_access gs w) \<le> n"
  "game_dom (Inr (Inr (Inr (Inl (gs, w))))) \<Longrightarrow> length (stdin w) \<le> n \<Longrightarrow> unread (start_trivia_game gs w) \<le> n"
  "game_dom (Inr (Inr (Inr (Inr (gs, w))))) \<Longrightarrow> length (stdin w) \<le> n \<Longrightarrow> unread (main_game_loop gs w) \<le> n"
proof (induct rule: game_pinduct)
  case (1 game_state is_ending w)
  note dom = "1.hyps"(1) and IH = "1.hyps"(2-)[unfolded Let_def is_game_over_def modify_score_def prod.case]
    and pre = "1.prems"
  show ?case
    apply (subst handle_play_again.psimps[OF dom])
    apply (insert pre)
    apply (unfold Let_def is_game_over_def modify_score_def prod.case)
    apply (rule unread_bind unread_get_valid_input_le unread_input_le unread_random_le
        | (split if_split callback.split, intro conjI impI)
        | (rule IH; (assumption | rule refl | simp))
        | simp)+
    done
next
  case (2 game_state w)
  note dom = "2.hyps"(1) and IH = "2.hyps"(2-)[unfolded Let_def is_game_over_def modify_score_def prod.case]
    and pre = "2.prems"
  show ?case
    apply (subst reset_game.psimps[OF dom])
    apply (insert pre)
    apply (unfold Let_def is_game_over_def modify_score_def prod.case)
    apply (rule unread_bind unread_get_valid_input_le unread_input_le unread_random_le
        | (split if_split callback.split, intro conjI impI)
        | (rule IH; (assumption | rule refl | simp))
        | simp)+
    done
next
  case (3 cb game_state w)
  note dom = "3.hyps"(1) and IH = "3.hyps"(2-)[unfolded Let_def is_game_over_def modify_score_def prod.case]
    and pre = "3.prems"
  show ?case
    apply (subst handle_jump_sequence.psimps[OF dom])
    apply (insert pre)
    apply (unfold Let_def is_game_over_def modify_score_def prod.case)
    apply (rule unread_bind unread_get_valid_input_le unread_input_le unread_random_le
        | (split if_split callback.split, intro conjI impI)
        | (rule IH; (assumption | rule refl | simp))
        | simp)+
    done
next
  case (4 game_state w)
  note dom = "4.hyps"(1) and IH = "4.hyps"(2-)[unfolded Let_def is_game_over_def modify_score_def prod.case]
    and pre = "4.prems"
  show ?case
    apply (subst enter_firewall_path.psimps[OF dom])
    apply (insert pre)
    apply (unfold Let_def is_game_over_def modify_score_def prod.case)
    apply (rule unread_bind unread_get_valid_input_le unread_input_le unread_random_le
        | (split if_split callback.split, intro conjI impI)
        | (rule IH; (assumption | rule refl | simp))
        | simp)+
    done
next
  case (5 game_state w)
  note dom = "5.hyps"(1) and IH = "5.hyps"(2-)[unfolded Let_def is_game_over_def modify_score_def prod.case]
    and pre = "5.prems"
  show ?case
    apply (subst handle_bridge_crossing.psimps[OF dom])
    apply (insert pre)
    apply (unfold Let_def is_game_over_def modify_score_def prod.case)
    apply (rule unread_bind unread_get_valid_input_le unread_input_le unread_random_le
        | (split if_split callback.split, intro conjI impI)
        | (rule IH; (assumption | rule refl | simp))
        | simp)+
    done
next
  case (6 game_state w)
  note dom = "6.hyps"(1) and IH = "6.hyps"(2-)[unfolded Let_def is_game_over_def modify_score_def prod.case]
    and pre = "6.prems"
  show ?case
    apply (subst handle_firewall_obstacle.psimps[OF dom])
    apply (insert pre)
    apply (unfold Let_def is_game_over_def modify_score_def prod.case)
    apply (rule unread_bind unread_get_valid_input_le unread_input_le unread_random_le
        | (split if_split callback.split, intro conjI impI)
        | (rule IH; (assumption | rule refl | simp))
        | simp)+
    done
next
  case (7 game_state w)
  note dom = "7.hyps"(1) and IH = "7.hyps"(2-)[unfolded Let_def is_game_over_def modify_score_def prod.case]
    and pre = "7.prems"
  show ?case
    apply (subst firewall_obstacle_loop.psimps[OF dom])
    apply (insert pre)
    apply (unfold Let_def is_game_over_def modify_score_def prod.case)
    apply (rule unread_bind unread_get_valid_input_le unread_input_le unread_random_le
        | (split if_split callback.split, intro conjI impI)
        | (rule IH; (assumption | rule refl | simp))
        | simp)+
    done
next
  case (8 game_state w)
  note dom = "8.hyps"(1) and IH = "8.hyps"(2-)[unfolded Let_def is_game_over_def modify_score_def prod.case]
    and pre = "8.prems"
  show ?case
    apply (subst handle_fan_obstacle.psimps[OF dom])
    apply (insert pre)
    apply (unfold Let_def is_game_over_def modify_score_def prod.case)
    apply (rule unread_bind unread_get_valid_input_le unread_input_le unread_random_le
        | (split if_split callback.split, intro conjI impI)
        | (rule IH; (assumption | rule refl | simp))
        | simp)+
    done
next
  case (9 game_state w)
  note dom = "9.hyps"(1) and IH = "9.hyps"(2-)[unfolded Let_def is_game_over_def modify_score_def prod.case]
    and pre = "9.prems"
  show ?case
    apply (subst fan_obstacle_loop.psimps[OF dom])
    apply (insert pre)
    apply (unfold Let_def is_game_over_def modify_score_def prod.case)
    apply (rule unread_bind unread_get_valid_input_le unread_input_le unread_random_le
        | (split if_split callback.split, intro conjI impI)
        | (rule IH; (assumption | rule refl | simp))
        | simp)+
    done
next
  case (10 game_state w)
  note dom = "10.hyps"(1) and IH = "10.hyps"(2-)[unfolded Let_def is_game_over_def modify_score_def prod.case]
    and pre = "10.prems"
  show ?case
    apply (subst enter_core_access.psimps[OF dom])
    apply (insert pre)
    apply (unfold Let_def is_game_over_def modify_score_def prod.case)
    apply (rule unread_bind unread_get_valid_input_le unread_input_le unread_random_le
        | (split if_split callback.split, intro conjI impI)
        | (rule IH; (assumption | rule refl | simp))
        | simp)+
    done
next
  case (11 game_state w)
  note dom = "11.hyps"(1) and IH = "11.hyps"(2-)[unfolded Let_def is_game_over_def modify_score_def prod.case]
    and pre = "11.prems"
  show ?case
    apply (subst handle_random_event.psimps[OF dom])
    apply (insert pre)
    apply (unfold Let_def is_game_over_def modify_score_def prod.case)
    apply (rule unread_bind unread_get_valid_input_le unread_input_le unread_random_le
        | (split if_split callback.split, intro conjI impI)
        | (rule IH; (assumption | rule refl | simp))
        | simp)+
    done
next
  case (12 game_state w)
  note dom = "12.hyps"(1) and IH = "12.hyps"(2-)[unfolded Let_def is_game_over_def modify_score_def prod.case]
    and pre = "12.prems"
  show ?case
    apply (subst return_to_core_access.psimps[OF dom])
    apply (insert pre)
    apply (unfold Let_def is_game_over_def modify_score_def prod.case)
    apply (rule unread_bind unread_get_valid_input_le unread_input_le unread_random_le
        | (split if_split callback.split, intro conjI impI)
        | (rule IH; (assumption | rule refl | simp))
        | simp)+
    done
next
  case (13 game_state w)
  note dom = "13.hyps"(1) and IH = "13.hyps"(2-)[unfolded Let_def is_game_over_def modify_score_def prod.case]
    and pre = "13.prems"
  show ?case
    apply (subst start_trivia_game.psimps[OF dom])
    apply (insert pre)
    apply (unfold Let_def is_game_over_def modify_score_def prod.case)
    apply (rule unread_bind unread_get_valid_input_le unread_input_le unread_random_le
        | (split if_split callback.split, intro conjI impI)
        | (rule IH; (assumption | rule refl | simp))
        | simp)+
    done
next
  case (14 game_state w)
  note dom = "14.hyps"(1) and IH = "14.hyps"(2-)[unfolded Let_def is_game_over_def modify_score_def prod.case]
    and pre = "14.prems"
  show ?case
    apply (subst main_game_loop.psimps[OF dom])
    apply (insert pre)
    apply (unfold Let_def is_game_over_def modify_score_def prod.case)
    apply (rule unread_bind unread_get_valid_input_le unread_input_le unread_random_le
        | (split if_split callback.split, intro conjI impI)
        | (rule IH; (assumption | rule refl | simp))
        | simp)+
    done
qed

lemma returned_unread_partial:
  "handle_play_again gs b w = Return g' w' \<Longrightarrow> game_dom (Inl (Inl (Inl (gs, b, w))))
     \<Longrightarrow> length (stdin w') \<le> length (stdin w)"
  "enter_firewall_path gs w = Return g' w' \<Longrightarrow> game_dom (Inl (Inr (Inl (Inl (gs, w)))))
     \<Longrightarrow> length (stdin w') \<le> length (stdin w)"
  "enter_core_access gs w = Return g' w' \<Longrightarrow> game_dom (Inr (Inl (Inr (Inr (gs, w)))))
     \<Longrightarrow> length (stdin w') \<le> length (stdin w)"
  using game_unread_partial(1)[of gs b w "length (stdin w)"]
    game_unread_partial(4)[of gs w "length (stdin w)"]
    game_unread_partial(10)[of gs w "length (stdin w)"]
  by simp_all

text \<open>The world of a call, and the order of the functions where a call reads nothing.\<close>

fun game_world where
  "game_world (Inl (Inl (Inl (gs, b, w)))) = w"
| "game_world (Inl (Inl (Inr (Inl (gs, w))))) = w"
| "game_world (Inl (Inl (Inr (Inr (cb, gs, w))))) = w"
| "game_world (Inl (Inr (Inl (Inl (gs, w))))) = w"
| "game_world (Inl (Inr (Inl (Inr (gs, w))))) = w"
| "game_world (Inl (Inr (Inr (Inl (gs, w))))) = w"
| "game_world (Inl (Inr (Inr (Inr (gs, w))))) = w"
| "game_world (Inr (Inl (Inl (gs, w)))) = w"
| "game_world (Inr (Inl (Inr (Inl (gs, w))))) = w"
| "game_world (Inr (Inl (Inr (Inr (gs, w))))) = w"
| "game_world (Inr (Inr (Inl (Inl (gs, w))))) = w"
| "game_world (Inr (Inr (Inl (Inr (gs, w))))) = w"
| "game_world (Inr (Inr (Inr (Inl (gs, w))))) = w"
| "game_world (Inr (Inr (Inr (Inr (gs, w))))) = w"

fun game_rank :: "_ \<Rightarrow> nat" where
  "game_rank (Inl (Inl (Inl (gs, b, w)))) = 0"
| "game_rank (Inl (Inl (Inr (Inl (gs, w))))) = 2"
| "game_rank (Inl (Inl (Inr (Inr (cb, gs, w))))) = 0"
| "game_rank (Inl (Inr (Inl (Inl (gs, w))))) = 1"
| "game_rank (Inl (Inr (Inl (Inr (gs, w))))) = 1"
| "game_rank (Inl (Inr (Inr (Inl (gs, w))))) = 1"
| "game_rank (Inl (Inr (Inr (Inr (gs, w))))) = 0"
| "game_rank (Inr (Inl (Inl (gs, w)))) = 1"
| "game_rank (Inr (Inl (Inr (Inl (gs, w))))) = 0"
| "game_rank (Inr (Inl (Inr (Inr (gs, w))))) = 2"
| "game_rank (Inr (Inr (Inl (Inl (gs, w))))) = 1"
| "game_rank (Inr (Inr (Inl (Inr (gs, w))))) = 0"
| "game_rank (Inr (Inr (Inr (Inl (gs, w))))) = 0"
| "game_rank (Inr (Inr (Inr (Inr (gs, w))))) = 1"

lemma random_stdin:
  "random_random w = Return u w' \<Longrightarrow> stdin w' = stdin w"
  "random_choice seq w = Return x w' \<Longrightarrow> stdin w' = stdin w"
  "new_GameState w = Return g w' \<Longrightarrow> stdin w' = stdin w"
  by (auto simp: random_random_def random_choice_def new_GameState_def)

termination handle_play_again
  apply (relation "measures [\<lambda>x. length (stdin (game_world x)), game_rank]")
  apply (auto dest!: get_valid_input_Return(2) input_consumes random_stdin)
  apply (auto simp: Let_def modify_score_def is_game_over_def split: if_splits
              dest!: returned_unread_partial)
  done

declare handle_play_again.simps [simp del] reset_game.simps [simp del]
  handle_jump_sequence.simps [simp del] enter_firewall_path.simps [simp del]
  handle_bridge_crossing.simps [simp del] handle_firewall_obstacle.simps [simp del]
  firewall_obstacle_loop.simps [simp del] handle_fan_obstacle.simps [simp del]
  fan_obstacle_loop.simps [simp del] enter_core_access.simps [simp del]
  handle_random_event.simps [simp del] return_to_core_access.simps [simp del]
  start_trivia_game.simps [simp del] main_game_loop.simps [simp del]

lemmas game_induct =
  handle_play_again_reset_game_handle_jump_sequence_enter_firewall_path_handle_bridge_crossing_handle_firewall_obstacle_firewall_obstacle_loop_handle_fan_obstacle_fan_obstacle_loop_enter_core_access_handle_random_event_return_to_core_access_start_trivia_game_main_game_loop.induct

text \<open>
  The script itself (the \<open>if __name__ == '__main__'\<close> block, after the screen was cleared
  when the module was loaded).
\<close>

definition main :: "world \<Rightarrow> game_state result" where
  "main w =
     (let w = clear_screen w
      in bind (new_GameState w) (\<lambda>game_state w.
           let w = clear_screen w;
               w = intro game_state w
           in main_game_loop game_state w))"

subsection \<open>The play-again prompt and the main loop never return\<close>

lemma sys_exit_not_returned [simp]: "\<not> returned (sys_exit w)"
  by (simp add: sys_exit_def)

lemma nr_bind:
  "(\<And>x w'. m = Return x w' \<Longrightarrow> \<not> returned (f x w')) \<Longrightarrow> \<not> returned (bind m f)"
  by (cases m) simp_all

lemma nr_bind_dead: "\<not> returned m \<Longrightarrow> \<not> returned (bind m f)"
  by (cases m) simp_all

lemma game_never_returns:
  "\<not> returned (handle_play_again gs b w)"
  "\<not> returned (reset_game gs w)"
  "handle_jump_sequence cb gs w = handle_jump_sequence cb gs w"
  "enter_firewall_path gs w = enter_firewall_path gs w"
  "handle_bridge_crossing gs w = handle_bridge_crossing gs w"
  "handle_firewall_obstacle gs w = handle_firewall_obstacle gs w"
  "firewall_obstacle_loop gs w = firewall_obstacle_loop gs w"
  "handle_fan_obstacle gs w = handle_fan_obstacle gs w"
  "fan_obstacle_loop gs w = fan_obstacle_loop gs w"
  "enter_core_access gs w = enter_core_access gs w"
  "handle_random_event gs w = handle_random_event gs w"
  "return_to_core_access gs w = return_to_core_access gs w"
  "start_trivia_game gs w = start_trivia_game gs w"
  "\<not> returned (main_game_loop gs w)"
proof (induct gs b w and gs w and cb gs w and gs w and gs w and gs w and gs w and gs w and gs w and gs w and gs w and gs w and gs w and gs w rule: game_induct)
  case (1 game_state is_ending w)
  note IH = "1.hyps"[unfolded Let_def is_game_over_def modify_score_def prod.case]
  show ?case
    apply (subst handle_play_again.simps)
    apply (unfold Let_def is_game_over_def modify_score_def prod.case)
    apply ((rule nr_bind_dead, (rule IH; (assumption | rule refl | simp))) | rule nr_bind
        | (split if_split callback.split, intro conjI impI)
        | (rule IH; (assumption | rule refl | simp))
        | simp)+
    done
next
  case (2 game_state w)
  note IH = "2.hyps"[unfolded Let_def is_game_over_def modify_score_def prod.case]
  show ?case
    apply (subst reset_game.simps)
    apply (unfold Let_def is_game_over_def modify_score_def prod.case)
    apply ((rule nr_bind_dead, (rule IH; (assumption | rule refl | simp))) | rule nr_bind
        | (split if_split callback.split, intro conjI impI)
        | (rule IH; (assumption | rule refl | simp))
        | simp)+
    done
next
  case (3 cb game_state w)
  show ?case by (rule refl)
next
  case (4 game_state w)
  show ?case by (rule refl)
next
  case (5 game_state w)
  show ?case by (rule refl)
next
  case (6 game_state w)
  show ?case by (rule refl)
next
  case (7 game_state w)
  show ?case by (rule refl)
next
  case (8 game_state w)
  show ?case by (rule refl)
next
  case (9 game_state w)
  show ?case by (rule refl)
next
  case (10 game_state w)
  show ?case by (rule refl)
next
  case (11 game_state w)
  show ?case by (rule refl)
next
  case (12 game_state w)
  show ?case by (rule refl)
next
  case (13 game_state w)
  show ?case by (rule refl)
next
  case (14 game_state w)
  note IH = "14.hyps"[unfolded Let_def is_game_over_def modify_score_def prod.case]
  show ?case
    apply (subst main_game_loop.simps)
    apply (unfold Let_def is_game_over_def modify_score_def prod.case)
    apply ((rule nr_bind_dead, (rule IH; (assumption | rule refl | simp))) | rule nr_bind
        | (split if_split callback.split, intro conjI impI)
        | (rule IH; (assumption | rule refl | simp))
        | simp)+
    done
qed

lemma never_Return [simp]:
  "handle_play_again gs b w \<noteq> Return g' w'"
  "reset_game gs w \<noteq> Return g' w'"
  "main_game_loop gs w \<noteq> Return g' w'"
  using game_never_returns(1)[of gs b w] game_never_returns(2)[of gs w]
    game_never_returns(14)[of gs w]
  by auto

lemma bind_never_returned: "\<not> returned m \<Longrightarrow> bind m f = m"
  by (cases m) simp_all

subsection \<open>The trace only grows\<close>

text \<open>
  Whatever has been written stays written: the trace at any moment is a prefix of the trace
  at the end of the run.
\<close>

lemma trace_emit [simp]: "trace (emit e w) = trace w @ [e]"
  by (simp add: emit_def)

lemma trace_fold_emit:
  "trace (fold (\<lambda>line w. emit (Slept p) (emit (Typed line) w)) ls w) =
     trace w @ concat (map (\<lambda>line. [Typed line, Slept p]) ls)"
  by (induction ls arbitrary: w) simp_all

lemma trace_library [simp]:
  "trace (time_sleep s w) = trace w @ [Slept s]"
  "trace (type_text t w) = trace w @ [Typed t]"
  "trace (print t w) = trace w @ [Printed t]"
  "trace (clear_screen w) = trace w @ [Cleared]"
  "trace (print_lines_with_pause ls p w) =
     trace w @ concat (map (\<lambda>line. [Typed line, Slept p]) ls)"
  by (simp_all add: time_sleep_def type_text_def print_def clear_screen_def
        print_lines_with_pause_def trace_fold_emit)

lemma trace_print_pause [simp]:
  "trace (print_pause t w) = trace w @ [Typed t, Slept 1.5]"
  by (simp add: print_pause_def)

lemma sys_exit_final [simp]: "final (sys_exit w :: 'a result) = w"
  by (simp add: sys_exit_def)

lemma keep_bind:
  assumes "prefix t (trace (final m))"
    and "\<And>x w'. m = Return x w' \<Longrightarrow> prefix t (trace w') \<Longrightarrow> prefix t (trace (final (f x w')))"
  shows "prefix t (trace (final (bind m f)))"
  using assms by (cases m) simp_all

lemma keep_get_valid_input:
  "prefix t (trace w) \<Longrightarrow>
     prefix t (trace (final (get_valid_input prompt valid_options error_msg w)))"
  by (simp add: get_valid_input_final(1))

lemma keep_library:
  "prefix t (trace w) \<Longrightarrow> prefix t (trace (final (input prompt w)))"
  "prefix t (trace w) \<Longrightarrow> prefix t (trace (final (random_random w)))"
  "prefix t (trace w) \<Longrightarrow> prefix t (trace (final (random_choice seq w)))"
  "prefix t (trace w) \<Longrightarrow> prefix t (trace (final (new_GameState w)))"
  by (simp_all add: input_def random_random_def random_choice_def new_GameState_def
        split: list.splits)

lemma game_trace_grows:
  "prefix t (trace w) \<Longrightarrow> prefix t (trace (final (handle_play_again gs b w)))"
  "prefix t (trace w) \<Longrightarrow> prefix t (trace (final (reset_game gs w)))"
  "prefix t (trace w) \<Longrightarrow> prefix t (trace (final (handle_jump_sequence cb gs w)))"
  "prefix t (trace w) \<Longrightarrow> prefix t (trace (final (enter_firewall_path gs w)))"
  "prefix t (trace w) \<Longrightarrow> prefix t (trace (final (handle_bridge_crossing gs w)))"
  "prefix t (trace w) \<Longrightarrow> prefix t (trace (final (handle_firewall_obstacle gs w)))"
  "prefix t (trace w) \<Longrightarrow> prefix t (trace (final (firewall_obstacle_loop gs w)))"
  "prefix t (trace w) \<Longrightarrow> prefix t (trace (final (handle_fan_obstacle gs w)))"
  "prefix t (trace w) \<Longrightarrow> prefix t (trace (final (fan_obstacle_loop gs w)))"
  "prefix t (trace w) \<Longrightarrow> prefix t (trace (final (enter_core_access gs w)))"
  "prefix t (trace w) \<Longrightarrow> prefix t (trace (final (handle_random_event gs w)))"
  "prefix t (trace w) \<Longrightarrow> prefix t (trace (final (return_to_core_access gs w)))"
  "prefix t (trace w) \<Longrightarrow> prefix t (trace (final (start_trivia_game gs w)))"
  "prefix t (trace w) \<Longrightarrow> prefix t (trace (final (main_game_loop gs w)))"
proof (induct gs b w and gs w and cb gs w and gs w and gs w and gs w and gs w and gs w and gs w and gs w and gs w and gs w and gs w and gs w rule: game_induct)
  case (1 game_state is_ending w)
  note IH = "1.hyps"[unfolded Let_def is_game_over_def modify_score_def prod.case] and pre = "1.prems"
  show ?case
    apply (subst handle_play_again.simps)
    apply (insert pre)
    apply (unfold Let_def is_game_over_def modify_score_def prod.case)
    apply (rule keep_bind keep_get_valid_input keep_library
        | (split if_split callback.split, intro conjI impI)
        | (rule IH; (assumption | rule refl | simp add: intro_def show_path_choices_def))
        | simp add: intro_def show_path_choices_def)+
    done
next
  case (2 game_state w)
  note IH = "2.hyps"[unfolded Let_def is_game_over_def modify_score_def prod.case] and pre = "2.prems"
  show ?case
    apply (subst reset_game.simps)
    apply (insert pre)
    apply (unfold Let_def is_game_over_def modify_score_def prod.case)
    apply (rule keep_bind keep_get_valid_input keep_library
        | (split if_split callback.split, intro conjI impI)
        | (rule IH; (assumption | rule refl | simp add: intro_def show_path_choices_def))
        | simp add: intro_def show_path_choices_def)+
    done
next
  case (3 cb game_state w)
  note IH = "3.hyps"[unfolded Let_def is_game_over_def modify_score_def prod.case] and pre = "3.prems"
  show ?case
    apply (subst handle_jump_sequence.simps)
    apply (insert pre)
    apply (unfold Let_def is_game_over_def modify_score_def prod.case)
    apply (rule keep_bind keep_get_valid_input keep_library
        | (split if_split callback.split, intro conjI impI)
        | (rule IH; (assumption | rule refl | simp add: intro_def show_path_choices_def))
        | simp add: intro_def show_path_choices_def)+
    done
next
  case (4 game_state w)
  note IH = "4.hyps"[unfolded Let_def is_game_over_def modify_score_def prod.case] and pre = "4.prems"
  show ?case
    apply (subst enter_firewall_path.simps)
    apply (insert pre)
    apply (unfold Let_def is_game_over_def modify_score_def prod.case)
    apply (rule keep_bind keep_get_valid_input keep_library
        | (split if_split callback.split, intro conjI impI)
        | (rule IH; (assumption | rule refl | simp add: intro_def show_path_choices_def))
        | simp add: intro_def show_path_choices_def)+
    done
next
  case (5 game_state w)
  note IH = "5.hyps"[unfolded Let_def is_game_over_def modify_score_def prod.case] and pre = "5.prems"
  show ?case
    apply (subst handle_bridge_crossing.simps)
    apply (insert pre)
    apply (unfold Let_def is_game_over_def modify_score_def prod.case)
    apply (rule keep_bind keep_get_valid_input keep_library
        | (split if_split callback.split, intro conjI impI)
        | (rule IH; (assumption | rule refl | simp add: intro_def show_path_choices_def))
        | simp add: intro_def show_path_choices_def)+
    done
next
  case (6 game_state w)
  note IH = "6.hyps"[unfolded Let_def is_game_over_def modify_score_def prod.case] and pre = "6.prems"
  show ?case
    apply (subst handle_firewall_obstacle.simps)
    apply (insert pre)
    apply (unfold Let_def is_game_over_def modify_score_def prod.case)
    apply (rule keep_bind keep_get_valid_input keep_library
        | (split if_split callback.split, intro conjI impI)
        | (rule IH; (assumption | rule refl | simp add: intro_def show_path_choices_def))
        | simp add: intro_def show_path_choices_def)+
    done
next
  case (7 game_state w)
  note IH = "7.hyps"[unfolded Let_def is_game_over_def modify_score_def prod.case] and pre = "7.prems"
  show ?case
    apply (subst firewall_obstacle_loop.simps)
    apply (insert pre)
    apply (unfold Let_def is_game_over_def modify_score_def prod.case)
    apply (rule keep_bind keep_get_valid_input keep_library
        | (split if_split callback.split, intro conjI impI)
        | (rule IH; (assumption | rule refl | simp add: intro_def show_path_choices_def))
        | simp add: intro_def show_path_choices_def)+
    done
next
  case (8 game_state w)
  note IH = "8.hyps"[unfolded Let_def is_game_over_def modify_score_def prod.case] and pre = "8.prems"
  show ?case
    apply (subst handle_fan_obstacle.simps)
    apply (insert pre)
    apply (unfold Let_def is_game_over_def modify_score_def prod.case)
    apply (rule keep_bind keep_get_valid_input keep_library
        | (split if_split callback.split, intro conjI impI)
        | (rule IH; (assumption | rule refl | simp add: intro_def show_path_choices_def))
        | simp add: intro_def show_path_choices_def)+
    done
next
  case (9 game_state w)
  note IH = "9.hyps"[unfolded Let_def is_game_over_def modify_score_def prod.case] and pre = "9.prems"
  show ?case
    apply (subst fan_obstacle_loop.simps)
    apply (insert pre)
    apply (unfold Let_def is_game_over_def modify_score_def prod.case)
    apply (rule keep_bind keep_get_valid_input keep_library
        | (split if_split callback.split, intro conjI impI)
        | (rule IH; (assumption | rule refl | simp add: intro_def show_path_choices_def))
        | simp add: intro_def show_path_choices_def)+
    done
next
  case (10 game_state w)
  note IH = "10.hyps"[unfolded Let_def is_game_over_def modify_score_def prod.case] and pre = "10.prems"
  show ?case
    apply (subst enter_core_access.simps)
    apply (insert pre)
    apply (unfold Let_def is_game_over_def modify_score_def prod.case)
    apply (rule keep_bind keep_get_valid_input keep_library
        | (split if_split callback.split, intro conjI impI)
        | (rule IH; (assumption | rule refl | simp add: intro_def show_path_choices_def))
        | simp add: intro_def show_path_choices_def)+
    done
next
  case (11 game_state w)
  note IH = "11.hyps"[unfolded Let_def is_game_over_def modify_score_def prod.case] and pre = "11.prems"
  show ?case
    apply (subst handle_random_event.simps)
    apply (insert pre)
    apply (unfold Let_def is_game_over_def modify_score_def prod.case)
    apply (rule keep_bind keep_get_valid_input keep_library
        | (split if_split callback.split, intro conjI impI)
        | (rule IH; (assumption | rule refl | simp add: intro_def show_path_choices_def))
        | simp add: intro_def show_path_choices_def)+
    done
next
  case (12 game_state w)
  note IH = "12.hyps"[unfolded Let_def is_game_over_def modify_score_def prod.case] and pre = "12.prems"
  show ?case
    apply (subst return_to_core_access.simps)
    apply (insert pre)
    apply (unfold Let_def is_game_over_def modify_score_def prod.case)
    apply (rule keep_bind keep_get_valid_input keep_library
        | (split if_split callback.split, intro conjI impI)
        | (rule IH; (assumption | rule refl | simp add: intro_def show_path_choices_def))
        | simp add: intro_def show_path_choices_def)+
    done
next
  case (13 game_state w)
  note IH = "13.hyps"[unfolded Let_def is_game_over_def modify_score_def prod.case] and pre = "13.prems"
  show ?case
    apply (subst start_trivia_game.simps)
    apply (insert pre)
    apply (unfold Let_def is_game_over_def modify_score_def prod.case)
    apply (rule keep_bind keep_get_valid_input keep_library
        | (split if_split callback.split, intro conjI impI)
        | (rule IH; (assumption | rule refl | simp add: intro_def show_path_choices_def))
        | simp add: intro_def show_path_choices_def)+
    done
next
  case (14 game_state w)
  note IH = "14.hyps"[unfolded Let_def is_game_over_def modify_score_def prod.case] and pre = "14.prems"
  show ?case
    apply (subst main_game_loop.simps)
    apply (insert pre)
    apply (unfold Let_def is_game_over_def modify_score_def prod.case)
    apply (rule keep_bind keep_get_valid_input keep_library
        | (split if_split callback.split, intro conjI impI)
        | (rule IH; (assumption | rule refl | simp add: intro_def show_path_choices_def))
        | simp add: intro_def show_path_choices_def)+
    done
qed

subsection \<open>The journal of the game state\<close>

text \<open>
  The journal is the part of the trace that concerns game state objects: creations and
  field assignments, in order. \<open>states\<close> lists the values the objects took.
\<close>

fun state_effect :: "effect \<Rightarrow> bool" where
  "state_effect (Created g) = True"
| "state_effect (Score_written g) = True"
| "state_effect (Armor_written g) = True"
| "state_effect e = False"

definition journal :: "world \<Rightarrow> effect list" where
  "journal w = filter state_effect (trace w)"

fun recorded :: "effect \<Rightarrow> game_state list" where
  "recorded (Created g) = [g]"
| "recorded (Score_written g) = [g]"
| "recorded (Armor_written g) = [g]"
| "recorded e = []"

definition states :: "world \<Rightarrow> game_state list" where
  "states w = concat (map recorded (journal w))"

text \<open>
  \<open>armor_discipline b j\<close> reads a journal from the left, \<open>b\<close> being the armor flag of the
  object in use: an object is created without armor; \<open>has_fire_armor\<close> is assigned only
  while the flag is still false, and the assignment makes it true; an assignment to
  \<open>score\<close> leaves the flag as it is. A journal with this discipline has, between two
  creations, at most one assignment to the flag, false before it and true ever after.
\<close>

fun armor_discipline :: "bool \<Rightarrow> effect list \<Rightarrow> bool" where
  "armor_discipline b [] = True"
| "armor_discipline b (Created g # es) = (\<not> has_fire_armor g \<and> armor_discipline False es)"
| "armor_discipline b (Armor_written g # es) =
     (\<not> b \<and> has_fire_armor g \<and> armor_discipline True es)"
| "armor_discipline b (Score_written g # es) =
     (has_fire_armor g = b \<and> armor_discipline b es)"
| "armor_discipline b (e # es) = armor_discipline b es"

fun armor_after :: "bool \<Rightarrow> effect list \<Rightarrow> bool" where
  "armor_after b [] = b"
| "armor_after b (Created g # es) = armor_after False es"
| "armor_after b (Armor_written g # es) = armor_after True es"
| "armor_after b (e # es) = armor_after b es"

lemma armor_after_append:
  "armor_after b (es @ es') = armor_after (armor_after b es) es'"
  by (induction b es rule: armor_after.induct) simp_all

lemma armor_discipline_append:
  "armor_discipline b (es @ es') =
     (armor_discipline b es \<and> armor_discipline (armor_after b es) es')"
  by (induction b es rule: armor_discipline.induct) simp_all

text \<open>
  The invariant of a run. \<open>safe\<close> is about the past: the journal keeps the discipline and
  every recorded score is one of 0, 5, 10, 15. \<open>tracked gs w\<close> adds that \<open>gs\<close> is the object
  in use: its flag is the one the journal ends with, and its score is 10 or 15 with the
  armor and 0, 5 or 10 without.
\<close>

definition safe :: "world \<Rightarrow> bool" where
  "safe w =
     (armor_discipline False (journal w) \<and> (\<forall>g\<in>set (states w). score g \<in> {0, 5, 10, 15}))"

definition tracked :: "game_state \<Rightarrow> world \<Rightarrow> bool" where
  "tracked gs w =
     (safe w \<and> armor_after False (journal w) = has_fire_armor gs \<and>
      score gs \<in> (if has_fire_armor gs then {10, 15} else {0, 5, 10}))"

definition post :: "game_state result \<Rightarrow> bool" where
  "post r = (safe (final r) \<and> (\<forall>gs w. r = Return gs w \<longrightarrow> tracked gs w))"

lemma journal_emit [simp]:
  "journal (emit e w) = journal w @ (if state_effect e then [e] else [])"
  by (simp add: journal_def)

lemma journal_fold_emit:
  "journal (fold (\<lambda>line w. emit (Slept p) (emit (Typed line) w)) ls w) = journal w"
  by (induction ls arbitrary: w) simp_all

lemma journal_library [simp]:
  "journal (time_sleep s w) = journal w"
  "journal (type_text t w) = journal w"
  "journal (print t w) = journal w"
  "journal (clear_screen w) = journal w"
  "journal (print_lines_with_pause ls p w) = journal w"
  by (simp_all add: time_sleep_def type_text_def print_def clear_screen_def
        print_lines_with_pause_def journal_fold_emit)

lemma journal_presentation [simp]:
  "journal (print_pause t w) = journal w"
  "journal (intro gs w) = journal w"
  "journal (show_path_choices w) = journal w"
  by (simp_all add: print_pause_def intro_def show_path_choices_def)

lemma journal_reprompts [simp]: "filter state_effect (reprompts p v e ls) = []"
  by (simp add: reprompts_def)

lemma journal_get_valid_input:
  "journal (final (get_valid_input prompt valid_options error_msg w)) = journal w"
  by (simp add: journal_def get_valid_input_final(1))

lemma journal_quiet:
  "journal (final (input prompt w)) = journal w"
  "journal (final (random_random w)) = journal w"
  "journal (final (random_choice seq w)) = journal w"
  by (simp_all add: journal_def input_def random_random_def random_choice_def emit_def
        split: list.splits)

lemma post_simps [simp]:
  "post (Return gs w) = tracked gs w"
  "post (SysExit n w) = safe w"
  "post (EOFError w) = safe w"
  "post (sys_exit w) = safe w"
  by (auto simp: post_def tracked_def sys_exit_def)

lemma post_bind:
  assumes "post m"
    and "\<And>x w'. m = Return x w' \<Longrightarrow> tracked x w' \<Longrightarrow> post (f x w')"
  shows "post (bind m f)"
  using assms by (cases m) simp_all

lemma post_bind_quiet:
  assumes "journal (final m) = journal w" and "safe w"
    and "\<And>x w'. m = Return x w' \<Longrightarrow> journal w' = journal w \<Longrightarrow> post (f x w')"
  shows "post (bind m f)"
  using assms by (cases m) (simp_all add: safe_def states_def)

lemmas post_bind_get_valid_input = post_bind_quiet[OF journal_get_valid_input]
lemmas post_bind_input = post_bind_quiet[OF journal_quiet(1)]
lemmas post_bind_random_random = post_bind_quiet[OF journal_quiet(2)]
lemmas post_bind_random_choice = post_bind_quiet[OF journal_quiet(3)]

lemma post_bind_new_GameState:
  assumes "safe w"
    and "\<And>x w'. new_GameState w = Return x w' \<Longrightarrow> x = GameState \<Longrightarrow>
           journal w' = journal w @ [Created GameState] \<Longrightarrow> post (f x w')"
  shows "post (bind (new_GameState w) f)"
  using assms by (simp add: new_GameState_def)

text \<open>
  The invariant holds along every call. The play-again prompt and \<open>reset_game\<close> need no
  more than a safe past, since they start a new object. \<open>enter_core_access\<close> is entered
  from \<open>main_game_loop\<close> only, after the game-over check, hence with a positive score; the
  button and the trivia question are reached only without the armor.
\<close>

lemmas invariant_defs = tracked_def safe_def states_def GameState_def
  armor_discipline_append armor_after_append

lemma game_invariant:
  "safe w \<Longrightarrow> post (handle_play_again gs b w)"
  "safe w \<Longrightarrow> post (reset_game gs w)"
  "tracked gs w \<Longrightarrow> post (handle_jump_sequence cb gs w)"
  "tracked gs w \<Longrightarrow> post (enter_firewall_path gs w)"
  "tracked gs w \<Longrightarrow> post (handle_bridge_crossing gs w)"
  "tracked gs w \<Longrightarrow> post (handle_firewall_obstacle gs w)"
  "tracked gs w \<Longrightarrow> post (firewall_obstacle_loop gs w)"
  "tracked gs w \<Longrightarrow> post (handle_fan_obstacle gs w)"
  "tracked gs w \<Longrightarrow> post (fan_obstacle_loop gs w)"
  "tracked gs w \<Longrightarrow> 0 < score gs \<Longrightarrow> post (enter_core_access gs w)"
  "tracked gs w \<Longrightarrow> 0 < score gs \<Longrightarrow> \<not> has_fire_armor gs \<Longrightarrow> post (handle_random_event gs w)"
  "tracked gs w \<Longrightarrow> post (return_to_core_access gs w)"
  "tracked gs w \<Longrightarrow> 0 < score gs \<Longrightarrow> \<not> has_fire_armor gs \<Longrightarrow> post (start_trivia_game gs w)"
  "tracked gs w \<Longrightarrow> post (main_game_loop gs w)"
proof (induct gs b w and gs w and cb gs w and gs w and gs w and gs w and gs w and gs w and gs w and gs w and gs w and gs w and gs w and gs w rule: game_induct)
  case (1 game_state is_ending w)
  note IH = "1.hyps"[unfolded Let_def is_game_over_def modify_score_def prod.case] and pre = "1.prems"
  show ?case
    apply (subst handle_play_again.simps)
    apply (insert pre)
    apply (unfold Let_def is_game_over_def modify_score_def prod.case)
    apply (rule post_bind_get_valid_input post_bind_input post_bind_random_random post_bind_random_choice post_bind_new_GameState post_bind
        | (split if_split callback.split, intro conjI impI)
        | (rule IH; (assumption | rule refl | force simp: invariant_defs split: if_splits))
        | force simp: invariant_defs split: if_splits)+
    done
next
  case (2 game_state w)
  note IH = "2.hyps"[unfolded Let_def is_game_over_def modify_score_def prod.case] and pre = "2.prems"
  show ?case
    apply (subst reset_game.simps)
    apply (insert pre)
    apply (unfold Let_def is_game_over_def modify_score_def prod.case)
    apply (rule post_bind_get_valid_input post_bind_input post_bind_random_random post_bind_random_choice post_bind_new_GameState post_bind
        | (split if_split callback.split, intro conjI impI)
        | (rule IH; (assumption | rule refl | force simp: invariant_defs split: if_splits))
        | force simp: invariant_defs split: if_splits)+
    done
next
  case (3 cb game_state w)
  note IH = "3.hyps"[unfolded Let_def is_game_over_def modify_score_def prod.case] and pre = "3.prems"
  show ?case
    apply (subst handle_jump_sequence.simps)
    apply (insert pre)
    apply (unfold Let_def is_game_over_def modify_score_def prod.case)
    apply (rule post_bind_get_valid_input post_bind_input post_bind_random_random post_bind_random_choice post_bind_new_GameState post_bind
        | (split if_split callback.split, intro conjI impI)
        | (rule IH; (assumption | rule refl | force simp: invariant_defs split: if_splits))
        | force simp: invariant_defs split: if_splits)+
    done
next
  case (4 game_state w)
  note IH = "4.hyps"[unfolded Let_def is_game_over_def modify_score_def prod.case] and pre = "4.prems"
  show ?case
    apply (subst enter_firewall_path.simps)
    apply (insert pre)
    apply (unfold Let_def is_game_over_def modify_score_def prod.case)
    apply (rule post_bind_get_valid_input post_bind_input post_bind_random_random post_bind_random_choice post_bind_new_GameState post_bind
        | (split if_split callback.split, intro conjI impI)
        | (rule IH; (assumption | rule refl | force simp: invariant_defs split: if_splits))
        | force simp: invariant_defs split: if_splits)+
    done
next
  case (5 game_state w)
  note IH = "5.hyps"[unfolded Let_def is_game_over_def modify_score_def prod.case] and pre = "5.prems"
  show ?case
    apply (subst handle_bridge_crossing.simps)
    apply (insert pre)
    apply (unfold Let_def is_game_over_def modify_score_def prod.case)
    apply (rule post_bind_get_valid_input post_bind_input post_bind_random_random post_bind_random_choice post_bind_new_GameState post_bind
        | (split if_split callback.split, intro conjI impI)
        | (rule IH; (assumption | rule refl | force simp: invariant_defs split: if_splits))
        | force simp: invariant_defs split: if_splits)+
    done
next
  case (6 game_state w)
  note IH = "6.hyps"[unfolded Let_def is_game_over_def modify_score_def prod.case] and pre = "6.prems"
  show ?case
    apply (subst handle_firewall_obstacle.simps)
    apply (insert pre)
    apply (unfold Let_def is_game_over_def modify_score_def prod.case)
    apply (rule post_bind_get_valid_input post_bind_input post_bind_random_random post_bind_random_choice post_bind_new_GameState post_bind
        | (split if_split callback.split, intro conjI impI)
        | (rule IH; (assumption | rule refl | force simp: invariant_defs split: if_splits))
        | force simp: invariant_defs split: if_splits)+
    done
next
  case (7 game_state w)
  note IH = "7.hyps"[unfolded Let_def is_game_over_def modify_score_def prod.case] and pre = "7.prems"
  show ?case
    apply (subst firewall_obstacle_loop.simps)
    apply (insert pre)
    apply (unfold Let_def is_game_over_def modify_score_def prod.case)
    apply (rule post_bind_get_valid_input post_bind_input post_bind_random_random post_bind_random_choice post_bind_new_GameState post_bind
        | (split if_split callback.split, intro conjI impI)
        | (rule IH; (assumption | rule refl | force simp: invariant_defs split: if_splits))
        | force simp: invariant_defs split: if_splits)+
    done
next
  case (8 game_state w)
  note IH = "8.hyps"[unfolded Let_def is_game_over_def modify_score_def prod.case] and pre = "8.prems"
  show ?case
    apply (subst handle_fan_obstacle.simps)
    apply (insert pre)
    apply (unfold Let_def is_game_over_def modify_score_def prod.case)
    apply (rule post_bind_get_valid_input post_bind_input post_bind_random_random post_bind_random_choice post_bind_new_GameState post_bind
        | (split if_split callback.split, intro conjI impI)
        | (rule IH; (assumption | rule refl | force simp: invariant_defs split: if_splits))
        | force simp: invariant_defs split: if_splits)+
    done
next
  case (9 game_state w)
  note IH = "9.hyps"[unfolded Let_def is_game_over_def modify_score_def prod.case] and pre = "9.prems"
  show ?case
    apply (subst fan_obstacle_loop.simps)
    apply (insert pre)
    apply (unfold Let_def is_game_over_def modify_score_def prod.case)
    apply (rule post_bind_get_valid_input post_bind_input post_bind_random_random post_bind_random_choice post_bind_new_GameState post_bind
        | (split if_split callback.split, intro conjI impI)
        | (rule IH; (assumption | rule refl | force simp: invariant_defs split: if_splits))
        | force simp: invariant_defs split: if_splits)+
    done
next
  case (10 game_state w)
  note IH = "10.hyps"[unfolded Let_def is_game_over_def modify_score_def prod.case] and pre = "10.prems"
  show ?case
    apply (subst enter_core_access.simps)
    apply (insert pre)
    apply (unfold Let_def is_game_over_def modify_score_def prod.case)
    apply (rule post_bind_get_valid_input post_bind_input post_bind_random_random post_bind_random_choice post_bind_new_GameState post_bind
        | (split if_split callback.split, intro conjI impI)
        | (rule IH; (assumption | rule refl | force simp: invariant_defs split: if_splits))
        | force simp: invariant_defs split: if_splits)+
    done
next
  case (11 game_state w)
  note IH = "11.hyps"[unfolded Let_def is_game_over_def modify_score_def prod.case] and pre = "11.prems"
  show ?case
    apply (subst handle_random_event.simps)
    apply (insert pre)
    apply (unfold Let_def is_game_over_def modify_score_def prod.case)
    apply (rule post_bind_get_valid_input post_bind_input post_bind_random_random post_bind_random_choice post_bind_new_GameState post_bind
        | (split if_split callback.split, intro conjI impI)
        | (rule IH; (assumption | rule refl | force simp: invariant_defs split: if_splits))
        | force simp: invariant_defs split: if_splits)+
    done
next
  case (12 game_state w)
  note IH = "12.hyps"[unfolded Let_def is_game_over_def modify_score_def prod.case] and pre = "12.prems"
  show ?case
    apply (subst return_to_core_access.simps)
    apply (insert pre)
    apply (unfold Let_def is_game_over_def modify_score_def prod.case)
    apply (rule post_bind_get_valid_input post_bind_input post_bind_random_random post_bind_random_choice post_bind_new_GameState post_bind
        | (split if_split callback.split, intro conjI impI)
        | (rule IH; (assumption | rule refl | force simp: invariant_defs split: if_splits))
        | force simp: invariant_defs split: if_splits)+
    done
next
  case (13 game_state w)
  note IH = "13.hyps"[unfolded Let_def is_game_over_def modify_score_def prod.case] and pre = "13.prems"
  show ?case
    apply (subst start_trivia_game.simps)
    apply (insert pre)
    apply (unfold Let_def is_game_over_def modify_score_def prod.case)
    apply (rule post_bind_get_valid_input post_bind_input post_bind_random_random post_bind_random_choice post_bind_new_GameState post_bind
        | (split if_split callback.split, intro conjI impI)
        | (rule IH; (assumption | rule refl | force simp: invariant_defs split: if_splits))
        | force simp: invariant_defs split: if_splits)+
    done
next
  case (14 game_state w)
  note IH = "14.hyps"[unfolded Let_def is_game_over_def modify_score_def prod.case] and pre = "14.prems"
  show ?case
    apply (subst main_game_loop.simps)
    apply (insert pre)
    apply (unfold Let_def is_game_over_def modify_score_def prod.case)
    apply (rule post_bind_get_valid_input post_bind_input post_bind_random_random post_bind_random_choice post_bind_new_GameState post_bind
        | (split if_split callback.split, intro conjI impI)
        | (rule IH; (assumption | rule refl | force simp: invariant_defs split: if_splits))
        | force simp: invariant_defs split: if_splits)+
    done
qed

section \<open>The claims\<close>

text \<open>The world when the process starts: nothing written, no random number drawn.\<close>

definition initial_world :: "string list \<Rightarrow> (nat \<Rightarrow> nat) \<Rightarrow> world" where
  "initial_world lines draws = \<lparr>stdin = lines, rng = draws, drawn = 0, trace = []\<rparr>"

text \<open>
  C7. \<open>is_game_over\<close> answers whether the score is at most 0 and leaves the game state as
  it is; it is true at score 0 and false at score 1.
\<close>

theorem is_game_over_iff_score_le_0:
  "fst (is_game_over gs) = (score gs \<le> 0) \<and> snd (is_game_over gs) = gs \<and>
   fst (is_game_over (gs\<lparr>score := 0\<rparr>)) \<and> \<not> fst (is_game_over (gs\<lparr>score := 1\<rparr>))"
  by (simp add: is_game_over_def)

text \<open>
  C6. \<open>get_valid_input\<close> is the closed form \<open>get_valid_input_spec\<close>. When it returns,
  the value is a member of the valid options and is the lower-cased first line that is
  valid; every line skipped before it was invalid and was answered by the prompt and the
  error message, which without a custom message is "Invalid choice. Choose: " followed by
  the options joined with ", ". It never exits the process. The one other way it ends is
  the end of the input (\<open>EOFError\<close>), and then no line of the input was valid.
\<close>

theorem get_valid_input_reprompts_until_valid:
  "get_valid_input prompt valid_options error_msg w =
     get_valid_input_spec prompt valid_options error_msg w \<and>
   (\<forall>c w'. get_valid_input prompt valid_options error_msg w = Return c w' \<longrightarrow>
      c \<in> set valid_options \<and>
      (\<exists>skipped line.
         stdin w = skipped @ line # stdin w' \<and>
         (\<forall>l\<in>set skipped. lower l \<notin> set valid_options) \<and>
         c = lower line \<and>
         trace w' = trace w @
           concat (map (\<lambda>l. [Prompted prompt, Printed (error_text valid_options error_msg)])
             skipped) @ [Prompted prompt])) \<and>
   (\<forall>n w'. get_valid_input prompt valid_options error_msg w \<noteq> SysExit n w') \<and>
   (\<forall>w'. get_valid_input prompt valid_options error_msg w = EOFError w' \<longrightarrow>
      (\<forall>l\<in>set (stdin w). lower l \<notin> set valid_options)) \<and>
   error_text valid_options None = ''Invalid choice. Choose: '' @ join '', '' valid_options"
proof (intro conjI allI impI ballI)
  show "get_valid_input prompt valid_options error_msg w =
     get_valid_input_spec prompt valid_options error_msg w"
    by (rule get_valid_input_refines)
next
  fix c w'
  assume r: "get_valid_input prompt valid_options error_msg w = Return c w'"
  from get_valid_input_Return(1)[OF r] show "c \<in> set valid_options" .
  let ?P = "invalid valid_options"
  let ?d = "dropWhile ?P (stdin w)"
  from r obtain line rest where d: "?d = line # rest" and c: "c = lower line"
    and w': "w' = w\<lparr>trace := trace w @ reprompts prompt valid_options error_msg (stdin w),
                     stdin := rest\<rparr>"
    by (cases ?d) (simp_all add: get_valid_input_refines get_valid_input_spec_def Let_def)
  have split: "stdin w = takeWhile ?P (stdin w) @ line # stdin w'"
    using takeWhile_dropWhile_id[of ?P "stdin w"] d w' by simp
  have bad: "\<forall>l\<in>set (takeWhile ?P (stdin w)). lower l \<notin> set valid_options"
    using set_takeWhileD[of _ ?P "stdin w"] by (auto simp: invalid_def)
  have tr: "trace w' = trace w @
      concat (map (\<lambda>l. [Prompted prompt, Printed (error_text valid_options error_msg)])
        (takeWhile ?P (stdin w))) @ [Prompted prompt]"
    using w' by (simp add: reprompts_def)
  from split bad c tr
  show "\<exists>skipped line.
         stdin w = skipped @ line # stdin w' \<and>
         (\<forall>l\<in>set skipped. lower l \<notin> set valid_options) \<and>
         c = lower line \<and>
         trace w' = trace w @
           concat (map (\<lambda>l. [Prompted prompt, Printed (error_text valid_options error_msg)])
             skipped) @ [Prompted prompt]"
    by blast
next
  fix n w'
  show "get_valid_input prompt valid_options error_msg w \<noteq> SysExit n w'"
    by (rule get_valid_input_no_exit)
next
  fix w' l
  assume e: "get_valid_input prompt valid_options error_msg w = EOFError w'"
    and l: "l \<in> set (stdin w)"
  from e have "dropWhile (invalid valid_options) (stdin w) = []"
    by (cases "dropWhile (invalid valid_options) (stdin w)")
       (simp_all add: get_valid_input_refines get_valid_input_spec_def Let_def)
  with l show "lower l \<notin> set valid_options"
    by (simp add: invalid_def)
next
  show "error_text valid_options None = ''Invalid choice. Choose: '' @ join '', '' valid_options"
    by (simp add: error_text_def)
qed

text \<open>
  The input "maybe", "Y", "n" at a yes/no prompt: "maybe" is refused with the default
  message, "Y" is accepted and returned as "y", "n" is left unread.
\<close>

theorem get_valid_input_reprompts_until_valid_witness:
  "get_valid_input ''(Y/N): '' [''y'', ''n''] None
      (initial_world [''maybe'', ''Y'', ''n''] (\<lambda>k. 0)) =
     Return ''y''
       \<lparr>stdin = [''n''], rng = \<lambda>k. 0, drawn = 0,
         trace = [Prompted ''(Y/N): '', Printed ''Invalid choice. Choose: y, n'',
                  Prompted ''(Y/N): '']\<rparr> \<and>
   ''y'' \<in> set [''y'', ''n''] \<and>
   (\<exists>skipped line.
      [''maybe'', ''Y'', ''n''] = skipped @ line # [''n''] \<and> ''y'' = lower line)"
proof -
  let ?w = "initial_world [''maybe'', ''Y'', ''n''] (\<lambda>k. 0)"
  let ?w' = "\<lparr>stdin = [''n''], rng = \<lambda>k. 0, drawn = 0,
         trace = [Prompted ''(Y/N): '', Printed ''Invalid choice. Choose: y, n'',
                  Prompted ''(Y/N): '']\<rparr>"
  note t = get_valid_input_reprompts_until_valid[of "''(Y/N): ''" "[''y'', ''n'']" None ?w]
  from t have "get_valid_input ''(Y/N): '' [''y'', ''n''] None ?w =
      get_valid_input_spec ''(Y/N): '' [''y'', ''n''] None ?w"
    by blast
  then have r: "get_valid_input ''(Y/N): '' [''y'', ''n''] None ?w = Return ''y'' ?w'"
    by (simp add: get_valid_input_spec_def reprompts_def invalid_def error_text_def
          lower_def lower_char_def initial_world_def)
  from t r have "''y'' \<in> set [''y'', ''n''] \<and>
      (\<exists>skipped line. stdin ?w = skipped @ line # stdin ?w' \<and> ''y'' = lower line)"
    by blast
  with r show ?thesis
    by (simp add: initial_world_def)
qed

subsection \<open>Running the program on a given input\<close>

text \<open>Everything needed to evaluate a run on concrete input lines and random draws.\<close>

lemmas library_defs = emit_def time_sleep_def print_def clear_screen_def type_text_def
  print_pause_def print_lines_with_pause_def input_def sys_exit_def random_random_def
  random_choice_def new_GameState_def intro_def show_path_choices_def

lemmas run_simps = handle_play_again.simps reset_game.simps handle_jump_sequence.simps
  enter_firewall_path.simps handle_bridge_crossing.simps handle_firewall_obstacle.simps
  firewall_obstacle_loop.simps handle_fan_obstacle.simps fan_obstacle_loop.simps
  enter_core_access.simps handle_random_event.simps return_to_core_access.simps
  start_trivia_game.simps main_game_loop.simps main_def
  get_valid_input_refines get_valid_input_spec_def reprompts_def invalid_def error_text_def
  lower_def lower_char_def upper_def upper_char_def library_defs Let_def initial_world_def
  modify_score_def is_game_over_def questions_def GameState_def

subsection \<open>The trivia encounter\<close>

text \<open>A draw is a value in \<open>[0, 1)\<close>, so \<open>random.choice\<close> stays inside the sequence.\<close>

lemma random_random_range:
  "random_random w = Return u w' \<Longrightarrow> 0 \<le> u \<and> u < 1 \<and> w' = w\<lparr>drawn := Suc (drawn w)\<rparr>"
  by (auto simp: random_random_def)

lemma random_choice_member:
  assumes "random_choice seq w = Return x w'" and "seq \<noteq> []"
  shows "x \<in> set seq" and "w' = w\<lparr>drawn := Suc (drawn w)\<rparr>"
proof -
  define u where "u = real (rng w (drawn w) mod 2 ^ 53) / 2 ^ 53"
  define w1 where "w1 = w\<lparr>drawn := Suc (drawn w)\<rparr>"
  have u: "random_random w = Return u w1"
    by (simp add: random_random_def u_def w1_def)
  from random_random_range[OF u] have r: "0 \<le> u" "u < 1" and w1: "w1 = w\<lparr>drawn := Suc (drawn w)\<rparr>"
    by simp_all
  from assms(1) u have x: "x = seq ! nat \<lfloor>u * real (length seq)\<rfloor>" and w': "w' = w1"
    by (simp_all add: random_choice_def)
  from assms(2) have len: "0 < real (length seq)" by simp
  from r(2) len have "u * real (length seq) < real (length seq)" by simp
  then have "\<lfloor>u * real (length seq)\<rfloor> < int (length seq)"
    by (simp add: floor_less_iff)
  moreover from r(1) have "0 \<le> \<lfloor>u * real (length seq)\<rfloor>" by simp
  ultimately have "nat \<lfloor>u * real (length seq)\<rfloor> < length seq" by linarith
  with x show "x \<in> set seq" by simp
  from w' w1 show "w' = w\<lparr>drawn := Suc (drawn w)\<rparr>" by simp
qed

text \<open>
  Once the question is drawn and an answer is validated, the encounter is one comparison:
  the reward (+5 and the armor) or the penalty (-5), then \<open>return_to_core_access\<close>.
\<close>

lemma start_trivia_game_answered:
  assumes "random_choice questions
             (print_pause ''To claim it, pass a fun trivia question.'' w) = Return q w1"
    and "get_valid_input ''> '' [''a'', ''b'', ''c''] None
           (print (options q) (print_pause (question q) w1)) = Return u w2"
  shows "start_trivia_game gs w =
    (if u = answer q then
       return_to_core_access (gs\<lparr>score := score gs + 5, has_fire_armor := True\<rparr>)
         (emit (Armor_written (gs\<lparr>score := score gs + 5, has_fire_armor := True\<rparr>))
           (emit (Score_written (gs\<lparr>score := score gs + 5\<rparr>))
             (print_lines_with_pause
                [''Correct! You've earned the fire protection armor.'',
                 ''Now revisit the firewall...''] 1.5 w2)))
     else
       return_to_core_access (gs\<lparr>score := score gs - 5\<rparr>)
         (emit (Score_written (gs\<lparr>score := score gs - 5\<rparr>))
           (print_lines_with_pause
              [''Incorrect! The armor stays locked.'',
               ''The floor splits open!''] 1.5 w2)))"
  by (subst start_trivia_game.simps) (simp add: assms Let_def modify_score_def)

lemma cpu_question_answer:
  "q \<in> set questions \<Longrightarrow> question q = ''What does CPU stand for?'' \<Longrightarrow> answer q = ''a''"
  by (auto simp: questions_def)

lemma not_os_question_answer:
  "q \<in> set questions \<Longrightarrow> question q \<noteq> ''Which of these is an OS?'' \<Longrightarrow> answer q = ''a''"
  by (auto simp: questions_def)

text \<open>
  C4. In the trivia scene a correct answer adds 5 to the score, sets the armor flag and
  goes on to \<open>return_to_core_access\<close>. In particular, for the question "What does CPU
  stand for?" the answer "a" from score 10 gives score 15 with the armor.
\<close>

theorem trivia_correct_answer_rewards:
  assumes "random_choice questions
             (print_pause ''To claim it, pass a fun trivia question.'' w) = Return q w1"
    and "get_valid_input ''> '' [''a'', ''b'', ''c''] None
           (print (options q) (print_pause (question q) w1)) = Return u w2"
  shows "(u = answer q \<longrightarrow>
      start_trivia_game gs w =
        return_to_core_access (gs\<lparr>score := score gs + 5, has_fire_armor := True\<rparr>)
          (emit (Armor_written (gs\<lparr>score := score gs + 5, has_fire_armor := True\<rparr>))
            (emit (Score_written (gs\<lparr>score := score gs + 5\<rparr>))
              (print_lines_with_pause
                 [''Correct! You've earned the fire protection armor.'',
                  ''Now revisit the firewall...''] 1.5 w2)))) \<and>
    (question q = ''What does CPU stand for?'' \<and> u = ''a'' \<and> score gs = 10 \<longrightarrow>
      start_trivia_game gs w =
        return_to_core_access \<lparr>score = 15, has_fire_armor = True\<rparr>
          (emit (Armor_written \<lparr>score = 15, has_fire_armor = True\<rparr>)
            (emit (Score_written \<lparr>score = 15, has_fire_armor = has_fire_armor gs\<rparr>)
              (print_lines_with_pause
                 [''Correct! You've earned the fire protection armor.'',
                  ''Now revisit the firewall...''] 1.5 w2))))"
proof (intro conjI impI)
  assume "u = answer q"
  with start_trivia_game_answered[OF assms, of gs]
  show "start_trivia_game gs w =
        return_to_core_access (gs\<lparr>score := score gs + 5, has_fire_armor := True\<rparr>)
          (emit (Armor_written (gs\<lparr>score := score gs + 5, has_fire_armor := True\<rparr>))
            (emit (Score_written (gs\<lparr>score := score gs + 5\<rparr>))
              (print_lines_with_pause
                 [''Correct! You've earned the fire protection armor.'',
                  ''Now revisit the firewall...''] 1.5 w2)))"
    by simp
next
  assume a: "question q = ''What does CPU stand for?'' \<and> u = ''a'' \<and> score gs = 10"
  from random_choice_member(1)[OF assms(1)] have "q \<in> set questions"
    by (simp add: questions_def)
  with a have "u = answer q"
    by (simp add: cpu_question_answer)
  with start_trivia_game_answered[OF assms, of gs] a
  show "start_trivia_game gs w =
        return_to_core_access \<lparr>score = 15, has_fire_armor = True\<rparr>
          (emit (Armor_written \<lparr>score = 15, has_fire_armor = True\<rparr>)
            (emit (Score_written \<lparr>score = 15, has_fire_armor = has_fire_armor gs\<rparr>)
              (print_lines_with_pause
                 [''Correct! You've earned the fire protection armor.'',
                  ''Now revisit the firewall...''] 1.5 w2)))"
    by (cases gs) simp
qed

text \<open>
  The first draw 0 selects the CPU question; the player types "A".
\<close>

theorem trivia_correct_answer_rewards_witness:
  "random_choice questions
     (print_pause ''To claim it, pass a fun trivia question.'' (initial_world [''A''] (\<lambda>k. 0))) =
     Return (questions ! 0)
       \<lparr>stdin = [''A''], rng = \<lambda>k. 0, drawn = 1,
         trace = [Typed ''To claim it, pass a fun trivia question.'', Slept 1.5]\<rparr> \<and>
   question (questions ! 0) = ''What does CPU stand for?'' \<and>
   start_trivia_game \<lparr>score = 10, has_fire_armor = False\<rparr> (initial_world [''A''] (\<lambda>k. 0)) =
     return_to_core_access \<lparr>score = 15, has_fire_armor = True\<rparr>
       \<lparr>stdin = [], rng = \<lambda>k. 0, drawn = 1,
         trace =
           [Typed ''To claim it, pass a fun trivia question.'', Slept 1.5,
            Typed ''What does CPU stand for?'', Slept 1.5,
            Printed (''A) Central Processing Unit  B) Computer Personal Unit  '' @
                     ''C) Central Peripheral Unit''),
            Prompted ''> '',
            Typed ''Correct! You've earned the fire protection armor.'', Slept 1.5,
            Typed ''Now revisit the firewall...'', Slept 1.5,
            Score_written \<lparr>score = 15, has_fire_armor = False\<rparr>,
            Armor_written \<lparr>score = 15, has_fire_armor = True\<rparr>]\<rparr>"
proof -
  let ?w = "initial_world [''A''] (\<lambda>k. 0)"
  let ?q = "questions ! 0"
  let ?w1 = "\<lparr>stdin = [''A''], rng = \<lambda>k. 0, drawn = 1,
         trace = [Typed ''To claim it, pass a fun trivia question.'', Slept 1.5]\<rparr>"
  let ?w2 = "\<lparr>stdin = [], rng = \<lambda>k. 0, drawn = 1,
         trace =
           [Typed ''To claim it, pass a fun trivia question.'', Slept 1.5,
            Typed ''What does CPU stand for?'', Slept 1.5,
            Printed (''A) Central Processing Unit  B) Computer Personal Unit  '' @
                     ''C) Central Peripheral Unit''),
            Prompted ''> '']\<rparr>"
  have h1: "random_choice questions
      (print_pause ''To claim it, pass a fun trivia question.'' ?w) = Return ?q ?w1"
    by (simp add: library_defs initial_world_def questions_def)
  have h2: "get_valid_input ''> '' [''a'', ''b'', ''c''] None
      (print (options ?q) (print_pause (question ?q) ?w1)) = Return ''a'' ?w2"
    by (simp add: run_simps)
  have h3: "question ?q = ''What does CPU stand for?''"
    by (simp add: questions_def)
  from trivia_correct_answer_rewards[OF h1 h2, of "\<lparr>score = 10, has_fire_armor = False\<rparr>"] h3
  have "start_trivia_game \<lparr>score = 10, has_fire_armor = False\<rparr> ?w =
      return_to_core_access \<lparr>score = 15, has_fire_armor = True\<rparr>
        (emit (Armor_written \<lparr>score = 15, has_fire_armor = True\<rparr>)
          (emit (Score_written \<lparr>score = 15, has_fire_armor = False\<rparr>)
            (print_lines_with_pause
               [''Correct! You've earned the fire protection armor.'',
                ''Now revisit the firewall...''] 1.5 ?w2)))"
    by simp
  with h1 h3 show ?thesis
    by (simp add: library_defs)
qed

text \<open>
  C2, as stated, fails: the pool's second question ("Which of these is an OS?") has the
  answer "b". With a draw that selects it (\<open>2^52\<close>, the uniform value 1/2), the input "b"
  from score 10 is rewarded: score 15, armor true. The run then stops at the next prompt,
  where the input has ended.
\<close>

theorem trivia_b_is_correct_for_os_question:
  "start_trivia_game \<lparr>score = 10, has_fire_armor = False\<rparr>
       (initial_world [''b''] (\<lambda>k. 2 ^ 52)) =
     EOFError
       \<lparr>stdin = [], rng = \<lambda>k. 2 ^ 52, drawn = 1,
         trace =
           [Typed ''To claim it, pass a fun trivia question.'', Slept 1.5,
            Typed ''Which of these is an OS?'', Slept 1.5,
            Printed ''A) Python  B) Linux  C) HTML'',
            Prompted ''> '',
            Typed ''Correct! You've earned the fire protection armor.'', Slept 1.5,
            Typed ''Now revisit the firewall...'', Slept 1.5,
            Score_written \<lparr>score = 15, has_fire_armor = False\<rparr>,
            Armor_written \<lparr>score = 15, has_fire_armor = True\<rparr>,
            Prompted ''Go to the firewall corridor? (Y/N): '']\<rparr>"
  by (simp add: run_simps cong: bind_weak_cong)

text \<open>
  C2, amended. When the question drawn is not the OS question (so it is the CPU or the RAM
  question, whose answer is "a"), the answer "b" at score 10 without armor is wrong: the
  score becomes 5, the armor flag stays false, and the game goes on in
  \<open>return_to_core_access\<close>.
\<close>

theorem trivia_b_is_wrong_for_cpu_and_ram:
  assumes "random_choice questions
             (print_pause ''To claim it, pass a fun trivia question.'' w) = Return q w1"
    and "get_valid_input ''> '' [''a'', ''b'', ''c''] None
           (print (options q) (print_pause (question q) w1)) = Return ''b'' w2"
    and "question q \<noteq> ''Which of these is an OS?''"
    and "score gs = 10" and "\<not> has_fire_armor gs"
  shows "start_trivia_game gs w =
     return_to_core_access \<lparr>score = 5, has_fire_armor = False\<rparr>
       (emit (Score_written \<lparr>score = 5, has_fire_armor = False\<rparr>)
         (print_lines_with_pause
            [''Incorrect! The armor stays locked.'',
             ''The floor splits open!''] 1.5 w2))"
proof -
  from random_choice_member(1)[OF assms(1)] have "q \<in> set questions"
    by (simp add: questions_def)
  then have "answer q = ''a''"
    using assms(3) by (rule not_os_question_answer)
  with start_trivia_game_answered[OF assms(1,2), of gs] assms(4,5) show ?thesis
    by (cases gs) simp
qed

text \<open>The first draw 0 selects the CPU question; the player types "B".\<close>

theorem trivia_b_is_wrong_for_cpu_and_ram_witness:
  "random_choice questions
     (print_pause ''To claim it, pass a fun trivia question.'' (initial_world [''B''] (\<lambda>k. 0))) =
     Return (questions ! 0)
       \<lparr>stdin = [''B''], rng = \<lambda>k. 0, drawn = 1,
         trace = [Typed ''To claim it, pass a fun trivia question.'', Slept 1.5]\<rparr> \<and>
   question (questions ! 0) \<noteq> ''Which of these is an OS?'' \<and>
   start_trivia_game \<lparr>score = 10, has_fire_armor = False\<rparr> (initial_world [''B''] (\<lambda>k. 0)) =
     return_to_core_access \<lparr>score = 5, has_fire_armor = False\<rparr>
       \<lparr>stdin = [], rng = \<lambda>k. 0, drawn = 1,
         trace =
           [Typed ''To claim it, pass a fun trivia question.'', Slept 1.5,
            Typed ''What does CPU stand for?'', Slept 1.5,
            Printed (''A) Central Processing Unit  B) Computer Personal Unit  '' @
                     ''C) Central Peripheral Unit''),
            Prompted ''> '',
            Typed ''Incorrect! The armor stays locked.'', Slept 1.5,
            Typed ''The floor splits open!'', Slept 1.5,
            Score_written \<lparr>score = 5, has_fire_armor = False\<rparr>]\<rparr>"
proof -
  let ?w = "initial_world [''B''] (\<lambda>k. 0)"
  let ?q = "questions ! 0"
  let ?w1 = "\<lparr>stdin = [''B''], rng = \<lambda>k. 0, drawn = 1,
         trace = [Typed ''To claim it, pass a fun trivia question.'', Slept 1.5]\<rparr>"
  let ?w2 = "\<lparr>stdin = [], rng = \<lambda>k. 0, drawn = 1,
         trace =
           [Typed ''To claim it, pass a fun trivia question.'', Slept 1.5,
            Typed ''What does CPU stand for?'', Slept 1.5,
            Printed (''A) Central Processing Unit  B) Computer Personal Unit  '' @
                     ''C) Central Peripheral Unit''),
            Prompted ''> '']\<rparr>"
  have h1: "random_choice questions
      (print_pause ''To claim it, pass a fun trivia question.'' ?w) = Return ?q ?w1"
    by (simp add: library_defs initial_world_def questions_def)
  have h2: "get_valid_input ''> '' [''a'', ''b'', ''c''] None
      (print (options ?q) (print_pause (question ?q) ?w1)) = Return ''b'' ?w2"
    by (simp add: run_simps)
  have h3: "question ?q \<noteq> ''Which of these is an OS?''"
    by (simp add: questions_def)
  have h4: "score \<lparr>score = 10, has_fire_armor = False\<rparr> = 10"
    and h5: "\<not> has_fire_armor \<lparr>score = 10, has_fire_armor = False\<rparr>"
    by simp_all
  from trivia_b_is_wrong_for_cpu_and_ram[OF h1 h2 h3 h4 h5] h1 h3 show ?thesis
    by (simp add: library_defs)
qed

subsection \<open>The play-again prompt\<close>

text \<open>
  Once the answer at the prompt is validated, \<open>handle_play_again\<close> is one branch: a new
  session (a new game state object, the cleared screen, the intro, the main loop) or the
  farewell and \<open>sys.exit()\<close>. The main loop of the new session never returns, so nothing
  of \<open>reset_game\<close> after it is ever reached.
\<close>

lemma handle_play_again_answered:
  assumes "get_valid_input
             (if is_ending then ''Would you like to play again? (Y/N): ''
              else ''You lost, play again? (Y/N): '')
             [''y'', ''n'', ''''] None w = Return c w'"
  shows "handle_play_again gs is_ending w =
     (if c \<in> set [''y'', ''''] then
        main_game_loop GameState
          (intro GameState (clear_screen (emit (Created GameState) (time_sleep 0.5 w'))))
      else SysExit 0 (type_text ''Thanks for playing!'' w'))"
  by (subst handle_play_again.simps)
     (simp add: assms Let_def reset_game.simps new_GameState_def sys_exit_def
        bind_never_returned[OF game_never_returns(14)])

text \<open>The first thing \<open>get_valid_input\<close> writes is the prompt.\<close>

lemma reprompts_head:
  "\<exists>rest. reprompts prompt valid_options error_msg lines = Prompted prompt # rest"
  by (cases "takeWhile (invalid valid_options) lines") (simp_all add: reprompts_def)

lemma prompt_then:
  assumes "\<And>c w'. prefix (trace w @ [Prompted prompt]) (trace w') \<Longrightarrow>
             prefix (trace w @ [Prompted prompt]) (trace (final (f c w')))"
  shows "prefix (trace w @ [Prompted prompt])
           (trace (final (bind (get_valid_input prompt valid_options error_msg w) f)))"
proof (rule keep_bind)
  from reprompts_head[of prompt valid_options error_msg "stdin w"]
  show "prefix (trace w @ [Prompted prompt])
          (trace (final (get_valid_input prompt valid_options error_msg w)))"
    by (auto simp: get_valid_input_final(1))
qed (rule assms)

lemma handle_play_again_prompts:
  "prefix (trace w @ [Prompted (if is_ending then ''Would you like to play again? (Y/N): ''
                                else ''You lost, play again? (Y/N): '')])
     (trace (final (handle_play_again gs is_ending w)))"
  by (subst handle_play_again.simps, unfold Let_def, rule prompt_then)
     (auto intro!: game_trace_grows(2))

text \<open>
  C5. Accepting the play-again prompt (the validated answer is "y" or blank) starts a new
  session: a fresh game state with score 10 and no armor, the intro, and the main loop on
  that state. Nothing of this depends on the previous game state or on whether the prompt
  followed a win or a loss.
\<close>

theorem play_again_accept_restarts_fresh:
  assumes "get_valid_input
             (if is_ending then ''Would you like to play again? (Y/N): ''
              else ''You lost, play again? (Y/N): '')
             [''y'', ''n'', ''''] None w = Return c w'"
    and "c = ''y'' \<or> c = ''''"
  shows "handle_play_again gs is_ending w =
     main_game_loop \<lparr>score = 10, has_fire_armor = False\<rparr>
       (intro \<lparr>score = 10, has_fire_armor = False\<rparr>
         (clear_screen
           (emit (Created \<lparr>score = 10, has_fire_armor = False\<rparr>) (time_sleep 0.5 w'))))"
  using handle_play_again_answered[OF assms(1), of gs] assms(2)
  by (auto simp: GameState_def)

text \<open>
  A lost session that ended with score 0 and with the armor; the player types "Y". The new
  session starts from score 10 without armor, after the intro.
\<close>

theorem play_again_accept_restarts_fresh_witness:
  "get_valid_input (if False then ''Would you like to play again? (Y/N): ''
                    else ''You lost, play again? (Y/N): '')
     [''y'', ''n'', ''''] None (initial_world [''Y''] (\<lambda>k. 0)) =
     Return ''y''
       \<lparr>stdin = [], rng = \<lambda>k. 0, drawn = 0,
         trace = [Prompted ''You lost, play again? (Y/N): '']\<rparr> \<and>
   handle_play_again \<lparr>score = 0, has_fire_armor = True\<rparr> False (initial_world [''Y''] (\<lambda>k. 0)) =
     main_game_loop \<lparr>score = 10, has_fire_armor = False\<rparr>
       \<lparr>stdin = [], rng = \<lambda>k. 0, drawn = 0,
         trace =
           [Prompted ''You lost, play again? (Y/N): '', Slept 0.5,
            Created \<lparr>score = 10, has_fire_armor = False\<rparr>, Cleared, Slept 1,
            Typed ''You wake up in a strange, dark place with tangled wires.'', Slept 1.5,
            Typed ''As you wander a bit, you begin to realize you're inside a...'', Slept 1.5,
            Typed ''Computer system.'', Slept 1.5]\<rparr>"
proof -
  let ?w = "initial_world [''Y''] (\<lambda>k. 0)"
  let ?w' = "\<lparr>stdin = [], rng = \<lambda>k. 0, drawn = 0,
         trace = [Prompted ''You lost, play again? (Y/N): '']\<rparr>"
  have h1: "get_valid_input (if False then ''Would you like to play again? (Y/N): ''
                    else ''You lost, play again? (Y/N): '')
     [''y'', ''n'', ''''] None ?w = Return ''y'' ?w'"
    by (simp add: run_simps)
  have h2: "''y'' = ''y'' \<or> ''y'' = ''''"
    by simp
  from play_again_accept_restarts_fresh[OF h1 h2, of "\<lparr>score = 0, has_fire_armor = True\<rparr>"] h1
  show ?thesis
    by (simp add: library_defs)
qed

text \<open>
  A session entered with a positive score shows the two paths and asks for the choice.
\<close>

lemma main_game_loop_prompts:
  assumes "0 < score gs"
  shows "prefix
      (trace w @
        [Typed ''Ahead of you, there are two paths:'', Slept 1.5,
         Typed (''1. A corridor with a red light labeled 'Firewall.'' @ [CHR 0x27]), Slept 1.5,
         Typed (''2. A pitch black tunnel labeled 'Core Access.'' @ [CHR 0x27]), Slept 1.5,
         Prompted ''Where do you go from here? The choice is yours: ''])
      (trace (final (main_game_loop gs w)))"
proof -
  let ?p = "''Where do you go from here? The choice is yours: ''"
  let ?k = "\<lambda>choice w.
      bind (if choice = ''1'' then enter_firewall_path gs w
            else if choice = ''2'' then enter_core_access gs w
            else Return gs w) (\<lambda>game_state w. main_game_loop game_state w)"
  have "prefix (trace (show_path_choices w) @ [Prompted ?p])
      (trace (final (bind (get_valid_input ?p [''1'', ''2''] None (show_path_choices w)) ?k)))"
    by (rule prompt_then)
       (auto intro!: keep_bind game_trace_grows(4) game_trace_grows(10) game_trace_grows(14))
  moreover have "main_game_loop gs w =
      bind (get_valid_input ?p [''1'', ''2''] None (show_path_choices w)) ?k"
    using assms by (subst main_game_loop.simps) (simp add: Let_def is_game_over_def)
  ultimately show ?thesis
    by (simp add: show_path_choices_def)
qed

text \<open>
  C8. With a validated answer at the play-again prompt, the answer "n" ends the process
  with exit status 0 right after the farewell: nothing more is written or read. The process
  ends from this prompt exactly when the answer is "n": it exits with no more than the
  farewell written after the answer, and it exits without another prompt, if and only if
  the answer is "n". Any other validated answer is "y" or blank; then the run is the main
  loop of a new session, and it goes on past the answer through the restart (the pause, the
  new game state, the cleared screen, the intro, the two paths) to the next prompt, the
  path choice.
\<close>

theorem play_again_decline_exits:
  assumes "get_valid_input
             (if is_ending then ''Would you like to play again? (Y/N): ''
              else ''You lost, play again? (Y/N): '')
             [''y'', ''n'', ''''] None w = Return c w'"
  shows "(c = ''n'' \<longrightarrow>
      handle_play_again gs is_ending w = SysExit 0 (type_text ''Thanks for playing!'' w')) \<and>
    ((\<exists>n wf. handle_play_again gs is_ending w = SysExit n wf \<and>
        trace wf = trace w' @ [Typed ''Thanks for playing!'']) = (c = ''n'')) \<and>
    ((\<exists>n wf. handle_play_again gs is_ending w = SysExit n wf \<and>
        (\<forall>p. Prompted p \<notin> set (drop (length (trace w')) (trace wf)))) = (c = ''n'')) \<and>
    (c \<noteq> ''n'' \<longrightarrow>
      handle_play_again gs is_ending w =
        main_game_loop \<lparr>score = 10, has_fire_armor = False\<rparr>
          (intro \<lparr>score = 10, has_fire_armor = False\<rparr>
            (clear_screen
              (emit (Created \<lparr>score = 10, has_fire_armor = False\<rparr>) (time_sleep 0.5 w')))) \<and>
      prefix
        (trace w' @
          [Slept 0.5, Created \<lparr>score = 10, has_fire_armor = False\<rparr>, Cleared, Slept 1,
           Typed ''You wake up in a strange, dark place with tangled wires.'', Slept 1.5,
           Typed ''As you wander a bit, you begin to realize you're inside a...'', Slept 1.5,
           Typed ''Computer system.'', Slept 1.5,
           Typed ''Ahead of you, there are two paths:'', Slept 1.5,
           Typed (''1. A corridor with a red light labeled 'Firewall.'' @ [CHR 0x27]),
           Slept 1.5,
           Typed (''2. A pitch black tunnel labeled 'Core Access.'' @ [CHR 0x27]),
           Slept 1.5,
           Prompted ''Where do you go from here? The choice is yours: ''])
        (trace (final (handle_play_again gs is_ending w))))"
proof -
  let ?restart =
    "[Slept 0.5, Created \<lparr>score = 10, has_fire_armor = False\<rparr>, Cleared, Slept 1,
      Typed ''You wake up in a strange, dark place with tangled wires.'', Slept 1.5,
      Typed ''As you wander a bit, you begin to realize you're inside a...'', Slept 1.5,
      Typed ''Computer system.'', Slept 1.5,
      Typed ''Ahead of you, there are two paths:'', Slept 1.5,
      Typed (''1. A corridor with a red light labeled 'Firewall.'' @ [CHR 0x27]),
      Slept 1.5,
      Typed (''2. A pitch black tunnel labeled 'Core Access.'' @ [CHR 0x27]),
      Slept 1.5]"
  let ?q = "Prompted ''Where do you go from here? The choice is yours: ''"
  let ?w2 = "intro GameState (clear_screen (emit (Created GameState) (time_sleep 0.5 w')))"
  note eq = handle_play_again_answered[OF assms, of gs]
  have exit: "handle_play_again gs is_ending w =
      SysExit 0 (type_text ''Thanks for playing!'' w')" if "c = ''n''"
    using eq that by simp
  have restart: "handle_play_again gs is_ending w = main_game_loop GameState ?w2"
    if "c \<noteq> ''n''"
  proof -
    from get_valid_input_Return(1)[OF assms] that have "c \<in> set [''y'', '''']"
      by auto
    with eq show ?thesis
      by simp
  qed
  have goes_on: "prefix (trace w' @ ?restart @ [?q])
      (trace (final (handle_play_again gs is_ending w)))" if "c \<noteq> ''n''"
  proof -
    have "prefix
      (trace ?w2 @
        [Typed ''Ahead of you, there are two paths:'', Slept 1.5,
         Typed (''1. A corridor with a red light labeled 'Firewall.'' @ [CHR 0x27]), Slept 1.5,
         Typed (''2. A pitch black tunnel labeled 'Core Access.'' @ [CHR 0x27]), Slept 1.5,
         ?q])
      (trace (final (main_game_loop GameState ?w2)))"
      by (rule main_game_loop_prompts) (simp add: GameState_def)
    with restart[OF that] show ?thesis
      by (simp add: intro_def GameState_def)
  qed
  have no_exit: False
    if c: "c \<noteq> ''n''"
      and e: "handle_play_again gs is_ending w = SysExit n wf"
      and t: "trace wf = trace w' @ [Typed ''Thanks for playing!'']" for n wf
  proof -
    from goes_on[OF c] e t
    have "prefix (trace w' @ ?restart @ [?q]) (trace w' @ [Typed ''Thanks for playing!''])"
      by simp
    then show False
      by simp
  qed
  have prompted: "\<exists>p. Prompted p \<in> set (drop (length (trace w')) (trace wf))"
    if c: "c \<noteq> ''n''"
      and e: "handle_play_again gs is_ending w = SysExit n wf" for n wf
  proof -
    from goes_on[OF c] e obtain rest where "trace wf = (trace w' @ ?restart @ [?q]) @ rest"
      by (auto simp: prefix_def)
    then have "drop (length (trace w')) (trace wf) = ?restart @ [?q] @ rest"
      by simp
    then have "?q \<in> set (drop (length (trace w')) (trace wf))"
      by simp
    then show ?thesis
      by blast
  qed
  have quiet: "\<exists>n wf. handle_play_again gs is_ending w = SysExit n wf \<and>
      (\<forall>p. Prompted p \<notin> set (drop (length (trace w')) (trace wf)))" if "c = ''n''"
    using exit[OF that] by (simp add: type_text_def)
  have farewell: "\<exists>n wf. handle_play_again gs is_ending w = SysExit n wf \<and>
      trace wf = trace w' @ [Typed ''Thanks for playing!'']" if "c = ''n''"
    using exit[OF that] by (simp add: type_text_def)
  show ?thesis
  proof (intro conjI impI)
    assume "c = ''n''"
    then show "handle_play_again gs is_ending w =
        SysExit 0 (type_text ''Thanks for playing!'' w')"
      by (rule exit)
  next
    from farewell no_exit
    show "(\<exists>n wf. handle_play_again gs is_ending w = SysExit n wf \<and>
        trace wf = trace w' @ [Typed ''Thanks for playing!'']) = (c = ''n'')"
      by blast
  next
    from quiet prompted
    show "(\<exists>n wf. handle_play_again gs is_ending w = SysExit n wf \<and>
        (\<forall>p. Prompted p \<notin> set (drop (length (trace w')) (trace wf)))) = (c = ''n'')"
      by blast
  next
    assume "c \<noteq> ''n''"
    from restart[OF this]
    show "handle_play_again gs is_ending w =
        main_game_loop \<lparr>score = 10, has_fire_armor = False\<rparr>
          (intro \<lparr>score = 10, has_fire_armor = False\<rparr>
            (clear_screen
              (emit (Created \<lparr>score = 10, has_fire_armor = False\<rparr>) (time_sleep 0.5 w'))))"
      by (simp add: GameState_def)
  next
    assume "c \<noteq> ''n''"
    from goes_on[OF this]
    show "prefix
        (trace w' @
          [Slept 0.5, Created \<lparr>score = 10, has_fire_armor = False\<rparr>, Cleared, Slept 1,
           Typed ''You wake up in a strange, dark place with tangled wires.'', Slept 1.5,
           Typed ''As you wander a bit, you begin to realize you're inside a...'', Slept 1.5,
           Typed ''Computer system.'', Slept 1.5,
           Typed ''Ahead of you, there are two paths:'', Slept 1.5,
           Typed (''1. A corridor with a red light labeled 'Firewall.'' @ [CHR 0x27]),
           Slept 1.5,
           Typed (''2. A pitch black tunnel labeled 'Core Access.'' @ [CHR 0x27]),
           Slept 1.5,
           Prompted ''Where do you go from here? The choice is yours: ''])
        (trace (final (handle_play_again gs is_ending w)))"
      by simp
  qed
qed

text \<open>
  After a win the player types "N"; the line "2" behind it is never read. Had the player
  left the line blank, the run would be the main loop of a new session, which reads that
  "2" at the path choice.
\<close>

theorem play_again_decline_exits_witness:
  "get_valid_input (if True then ''Would you like to play again? (Y/N): ''
                    else ''You lost, play again? (Y/N): '')
     [''y'', ''n'', ''''] None (initial_world [''N'', ''2''] (\<lambda>k. 0)) =
     Return ''n''
       \<lparr>stdin = [''2''], rng = \<lambda>k. 0, drawn = 0,
         trace = [Prompted ''Would you like to play again? (Y/N): '']\<rparr> \<and>
   handle_play_again \<lparr>score = 15, has_fire_armor = True\<rparr> True
       (initial_world [''N'', ''2''] (\<lambda>k. 0)) =
     SysExit 0
       \<lparr>stdin = [''2''], rng = \<lambda>k. 0, drawn = 0,
         trace = [Prompted ''Would you like to play again? (Y/N): '',
                  Typed ''Thanks for playing!'']\<rparr> \<and>
   get_valid_input (if True then ''Would you like to play again? (Y/N): ''
                    else ''You lost, play again? (Y/N): '')
     [''y'', ''n'', ''''] None (initial_world ['''', ''2''] (\<lambda>k. 0)) =
     Return ''''
       \<lparr>stdin = [''2''], rng = \<lambda>k. 0, drawn = 0,
         trace = [Prompted ''Would you like to play again? (Y/N): '']\<rparr> \<and>
   handle_play_again \<lparr>score = 15, has_fire_armor = True\<rparr> True
       (initial_world ['''', ''2''] (\<lambda>k. 0)) =
     main_game_loop \<lparr>score = 10, has_fire_armor = False\<rparr>
       \<lparr>stdin = [''2''], rng = \<lambda>k. 0, drawn = 0,
         trace =
           [Prompted ''Would you like to play again? (Y/N): '', Slept 0.5,
            Created \<lparr>score = 10, has_fire_armor = False\<rparr>, Cleared, Slept 1,
            Typed ''You wake up in a strange, dark place with tangled wires.'', Slept 1.5,
            Typed ''As you wander a bit, you begin to realize you're inside a...'', Slept 1.5,
            Typed ''Computer system.'', Slept 1.5]\<rparr>"
proof -
  let ?w = "initial_world [''N'', ''2''] (\<lambda>k. 0)"
  let ?v = "initial_world ['''', ''2''] (\<lambda>k. 0)"
  let ?w' = "\<lparr>stdin = [''2''], rng = \<lambda>k. 0, drawn = 0,
         trace = [Prompted ''Would you like to play again? (Y/N): '']\<rparr>"
  have h1: "get_valid_input (if True then ''Would you like to play again? (Y/N): ''
                    else ''You lost, play again? (Y/N): '')
     [''y'', ''n'', ''''] None ?w = Return ''n'' ?w'"
    by (simp add: run_simps)
  have h2: "get_valid_input (if True then ''Would you like to play again? (Y/N): ''
                    else ''You lost, play again? (Y/N): '')
     [''y'', ''n'', ''''] None ?v = Return '''' ?w'"
    by (simp add: run_simps)
  from play_again_decline_exits[OF h1, of "\<lparr>score = 15, has_fire_armor = True\<rparr>"]
  have "handle_play_again \<lparr>score = 15, has_fire_armor = True\<rparr> True ?w =
      SysExit 0 (type_text ''Thanks for playing!'' ?w')"
    by simp
  then have e: "handle_play_again \<lparr>score = 15, has_fire_armor = True\<rparr> True ?w =
     SysExit 0
       \<lparr>stdin = [''2''], rng = \<lambda>k. 0, drawn = 0,
         trace = [Prompted ''Would you like to play again? (Y/N): '',
                  Typed ''Thanks for playing!'']\<rparr>"
    by (simp add: library_defs)
  from play_again_decline_exits[OF h2, of "\<lparr>score = 15, has_fire_armor = True\<rparr>"]
  have "handle_play_again \<lparr>score = 15, has_fire_armor = True\<rparr> True ?v =
        main_game_loop \<lparr>score = 10, has_fire_armor = False\<rparr>
          (intro \<lparr>score = 10, has_fire_armor = False\<rparr>
            (clear_screen
              (emit (Created \<lparr>score = 10, has_fire_armor = False\<rparr>) (time_sleep 0.5 ?w'))))"
    by simp
  then have r: "handle_play_again \<lparr>score = 15, has_fire_armor = True\<rparr> True ?v =
     main_game_loop \<lparr>score = 10, has_fire_armor = False\<rparr>
       \<lparr>stdin = [''2''], rng = \<lambda>k. 0, drawn = 0,
         trace =
           [Prompted ''Would you like to play again? (Y/N): '', Slept 0.5,
            Created \<lparr>score = 10, has_fire_armor = False\<rparr>, Cleared, Slept 1,
            Typed ''You wake up in a strange, dark place with tangled wires.'', Slept 1.5,
            Typed ''As you wander a bit, you begin to realize you're inside a...'', Slept 1.5,
            Typed ''Computer system.'', Slept 1.5]\<rparr>"
    by (simp add: library_defs)
  from h1 e h2 r show ?thesis
    by (simp only: simp_thms)
qed

subsection \<open>The fan and the path choice\<close>

lemma journal_get_valid_input_Return:
  "get_valid_input prompt valid_options error_msg w = Return c w' \<Longrightarrow> journal w' = journal w"
  using journal_get_valid_input[of prompt valid_options error_msg w] by simp

text \<open>
  C9. Choosing "2" (go back) at the fan enters \<open>main_game_loop\<close>, the path choice, with
  the very game state the fan scene was entered with; and from the entry of the fan scene
  up to that point no game state was created or assigned to.
\<close>

theorem fan_go_back_keeps_game_state:
  assumes "get_valid_input ''> '' [''1'', ''2''] None
             (print ''2. Go back''
               (print ''1. Try to jump through the fan''
                 (print ''Do you want to:''
                   (print_lines_with_pause
                      [''The temperature rises the further you walk...'',
                       ''A large fan blocks your path!'',
                       ''Its blades spin dangerously fast.''] 1.5 w)))) = Return ''2'' w'"
  shows "handle_fan_obstacle gs w =
           main_game_loop gs (print_pause ''You decide to go back to the main area.'' w') \<and>
         journal (print_pause ''You decide to go back to the main area.'' w') = journal w"
proof
  show "handle_fan_obstacle gs w =
      main_game_loop gs (print_pause ''You decide to go back to the main area.'' w')"
    apply (subst handle_fan_obstacle.simps)
    apply (unfold Let_def)
    apply (subst fan_obstacle_loop.simps)
    apply (insert assms)
    apply (simp add: Let_def)
    done
  from journal_get_valid_input_Return[OF assms]
  show "journal (print_pause ''You decide to go back to the main area.'' w') = journal w"
    by simp
qed

text \<open>At the fan with score 5 and no armor, the player types "2".\<close>

theorem fan_go_back_keeps_game_state_witness:
  "handle_fan_obstacle \<lparr>score = 5, has_fire_armor = False\<rparr> (initial_world [''2''] (\<lambda>k. 0)) =
     main_game_loop \<lparr>score = 5, has_fire_armor = False\<rparr>
       \<lparr>stdin = [], rng = \<lambda>k. 0, drawn = 0,
         trace =
           [Typed ''The temperature rises the further you walk...'', Slept 1.5,
            Typed ''A large fan blocks your path!'', Slept 1.5,
            Typed ''Its blades spin dangerously fast.'', Slept 1.5,
            Printed ''Do you want to:'',
            Printed ''1. Try to jump through the fan'',
            Printed ''2. Go back'',
            Prompted ''> '',
            Typed ''You decide to go back to the main area.'', Slept 1.5]\<rparr> \<and>
   journal
     \<lparr>stdin = [], rng = \<lambda>k. 0, drawn = 0,
       trace =
         [Typed ''The temperature rises the further you walk...'', Slept 1.5,
          Typed ''A large fan blocks your path!'', Slept 1.5,
          Typed ''Its blades spin dangerously fast.'', Slept 1.5,
          Printed ''Do you want to:'',
          Printed ''1. Try to jump through the fan'',
          Printed ''2. Go back'',
          Prompted ''> '',
          Typed ''You decide to go back to the main area.'', Slept 1.5]\<rparr> =
     journal (initial_world [''2''] (\<lambda>k. 0))"
proof -
  let ?w = "initial_world [''2''] (\<lambda>k. 0)"
  let ?w' = "\<lparr>stdin = [], rng = \<lambda>k. 0, drawn = 0,
         trace =
           [Typed ''The temperature rises the further you walk...'', Slept 1.5,
            Typed ''A large fan blocks your path!'', Slept 1.5,
            Typed ''Its blades spin dangerously fast.'', Slept 1.5,
            Printed ''Do you want to:'',
            Printed ''1. Try to jump through the fan'',
            Printed ''2. Go back'',
            Prompted ''> '']\<rparr>"
  have h1: "get_valid_input ''> '' [''1'', ''2''] None
             (print ''2. Go back''
               (print ''1. Try to jump through the fan''
                 (print ''Do you want to:''
                   (print_lines_with_pause
                      [''The temperature rises the further you walk...'',
                       ''A large fan blocks your path!'',
                       ''Its blades spin dangerously fast.''] 1.5 ?w)))) = Return ''2'' ?w'"
    by (simp add: run_simps)
  from fan_go_back_keeps_game_state[OF h1, of "\<lparr>score = 5, has_fire_armor = False\<rparr>"]
  show ?thesis
    by (simp add: library_defs)
qed

text \<open>
  C1, as stated, fails: \<open>main_game_loop\<close> calls \<open>show_path_choices\<close> before it asks
  \<open>is_game_over\<close>. Entered with score 0 and the input "n", the run writes the two path
  options and only then the play-again prompt; so it is not the run of the play-again
  prompt entered directly.
\<close>

theorem path_options_shown_before_game_over_check:
  "main_game_loop \<lparr>score = 0, has_fire_armor = False\<rparr> (initial_world [''n''] (\<lambda>k. 0)) =
     SysExit 0
       \<lparr>stdin = [], rng = \<lambda>k. 0, drawn = 0,
         trace =
           [Typed ''Ahead of you, there are two paths:'', Slept 1.5,
            Typed (''1. A corridor with a red light labeled 'Firewall.'' @ [CHR 0x27]), Slept 1.5,
            Typed (''2. A pitch black tunnel labeled 'Core Access.'' @ [CHR 0x27]), Slept 1.5,
            Prompted ''You lost, play again? (Y/N): '',
            Typed ''Thanks for playing!'']\<rparr> \<and>
   main_game_loop \<lparr>score = 0, has_fire_armor = False\<rparr> (initial_world [''n''] (\<lambda>k. 0)) \<noteq>
     handle_play_again \<lparr>score = 0, has_fire_armor = False\<rparr> False (initial_world [''n''] (\<lambda>k. 0))"
  by (simp add: run_simps cong: bind_weak_cong)

text \<open>
  C1, amended. In the path choice scene the two path options are presented first. Then, if
  \<open>is_game_over\<close> holds (score at most 0), the scene is the play-again prompt for a loss
  and nothing else: the run continues as \<open>handle_play_again\<close> after the options, the next
  thing written is the prompt "You lost, play again? (Y/N): ", and the path choice of this
  session is never asked for.
\<close>

theorem path_choice_game_over_prompts_play_again:
  assumes "score gs \<le> 0"
  shows "main_game_loop gs w = handle_play_again gs False (show_path_choices w) \<and>
    prefix
      (trace w @
        [Typed ''Ahead of you, there are two paths:'', Slept 1.5,
         Typed (''1. A corridor with a red light labeled 'Firewall.'' @ [CHR 0x27]), Slept 1.5,
         Typed (''2. A pitch black tunnel labeled 'Core Access.'' @ [CHR 0x27]), Slept 1.5,
         Prompted ''You lost, play again? (Y/N): ''])
      (trace (final (main_game_loop gs w)))"
proof -
  have eq: "main_game_loop gs w = handle_play_again gs False (show_path_choices w)"
    using assms
    by (subst main_game_loop.simps)
       (simp add: Let_def is_game_over_def bind_never_returned[OF game_never_returns(1)])
  from handle_play_again_prompts[of "show_path_choices w" False gs] eq
  show ?thesis
    by (simp add: show_path_choices_def)
qed

text \<open>Score 0 with the armor; the player answers "N" to the prompt.\<close>

theorem path_choice_game_over_prompts_play_again_witness:
  "score \<lparr>score = 0, has_fire_armor = True\<rparr> \<le> 0 \<and>
   main_game_loop \<lparr>score = 0, has_fire_armor = True\<rparr> (initial_world [''N''] (\<lambda>k. 0)) =
     handle_play_again \<lparr>score = 0, has_fire_armor = True\<rparr> False
       (show_path_choices (initial_world [''N''] (\<lambda>k. 0))) \<and>
   handle_play_again \<lparr>score = 0, has_fire_armor = True\<rparr> False
       (show_path_choices (initial_world [''N''] (\<lambda>k. 0))) =
     SysExit 0
       \<lparr>stdin = [], rng = \<lambda>k. 0, drawn = 0,
         trace =
           [Typed ''Ahead of you, there are two paths:'', Slept 1.5,
            Typed (''1. A corridor with a red light labeled 'Firewall.'' @ [CHR 0x27]), Slept 1.5,
            Typed (''2. A pitch black tunnel labeled 'Core Access.'' @ [CHR 0x27]), Slept 1.5,
            Prompted ''You lost, play again? (Y/N): '',
            Typed ''Thanks for playing!'']\<rparr>"
proof -
  have h: "score \<lparr>score = 0, has_fire_armor = True\<rparr> \<le> 0"
    by simp
  have e: "handle_play_again \<lparr>score = 0, has_fire_armor = True\<rparr> False
       (show_path_choices (initial_world [''N''] (\<lambda>k. 0))) =
     SysExit 0
       \<lparr>stdin = [], rng = \<lambda>k. 0, drawn = 0,
         trace =
           [Typed ''Ahead of you, there are two paths:'', Slept 1.5,
            Typed (''1. A corridor with a red light labeled 'Firewall.'' @ [CHR 0x27]), Slept 1.5,
            Typed (''2. A pitch black tunnel labeled 'Core Access.'' @ [CHR 0x27]), Slept 1.5,
            Prompted ''You lost, play again? (Y/N): '',
            Typed ''Thanks for playing!'']\<rparr>"
    by (simp add: run_simps cong: bind_weak_cong)
  from path_choice_game_over_prompts_play_again[OF h, of "initial_world [''N''] (\<lambda>k. 0)"] h e
  show ?thesis
    by blast
qed

subsection \<open>The invariant of a whole run\<close>

lemma main_invariant:
  assumes "safe w"
  shows "post (main w)"
  unfolding main_def Let_def
proof (rule post_bind_new_GameState)
  from assms show "safe (clear_screen w)"
    by (simp add: safe_def states_def)
next
  fix x w'
  assume "x = GameState" and "journal w' = journal (clear_screen w) @ [Created GameState]"
  with assms have "tracked x (intro x (clear_screen w'))"
    by (simp add: invariant_defs)
  then show "post (main_game_loop x (intro x (clear_screen w')))"
    by (rule game_invariant(14))
qed

lemma main_safe: "safe (final (main (initial_world lines draws)))"
proof -
  have "safe (initial_world lines draws)"
    by (simp add: safe_def states_def journal_def initial_world_def)
  from main_invariant[OF this] show ?thesis
    by (simp add: post_def)
qed

text \<open>
  Two runs of the whole program, up to the end of the input or the exit. In the first the
  button opens the door (draw \<open>2^52\<close>), the CPU question is drawn (draw 0) and answered
  correctly; in the second the player fails the CPU question twice in one session.
\<close>

lemma run_with_armor:
  "journal (final (main (initial_world [''2'', ''y'', ''a'', ''n'', ''2'']
      (\<lambda>k. if k = 0 then 2 ^ 52 else 0)))) =
     [Created \<lparr>score = 10, has_fire_armor = False\<rparr>,
      Score_written \<lparr>score = 15, has_fire_armor = False\<rparr>,
      Armor_written \<lparr>score = 15, has_fire_armor = True\<rparr>]"
  by (simp add: run_simps journal_def cong: bind_weak_cong)

lemma run_with_two_trivia_rounds:
  "journal (final (main (initial_world
      [''2'', ''y'', ''b'', ''y'', ''n'', ''2'', ''y'', ''b'', ''n'', ''2'', ''n'']
      (\<lambda>k. if even k then 2 ^ 52 else 0)))) =
     [Created \<lparr>score = 10, has_fire_armor = False\<rparr>,
      Score_written \<lparr>score = 5, has_fire_armor = False\<rparr>,
      Score_written \<lparr>score = 0, has_fire_armor = False\<rparr>]"
  by (simp add: run_simps journal_def cong: bind_weak_cong)

subsection \<open>Replaying a trace against the input\<close>

text \<open>
  The trace records the prompts but not the lines read at them. Every call of \<open>input\<close>
  writes one prompt and reads one line, so the lines can be put back: going through the
  trace from its start, each prompt takes the next line of the input the run was started
  with. The replay keeps the lines not yet taken, the trivia question whose options were
  printed last, the latest prompt with the line read at it (lower-cased; nothing before the
  first prompt after a question was displayed, and nothing when the input had ended), and
  whether every assignment to \<open>has_fire_armor\<close> so far was earned: made when the latest
  line read, at the prompt "> ", was the answer of the question displayed last.
\<close>

record replay_state =
  pending :: "string list"
  asked :: "trivia option"
  reply :: "(string \<times> string) option"
  earned :: bool

definition asking :: "string \<Rightarrow> trivia option" where
  "asking s = find (\<lambda>q. options q = s) questions"

fun replay_step :: "replay_state \<Rightarrow> effect \<Rightarrow> replay_state" where
  "replay_step r (Printed s) =
     (case asking s of
        Some q \<Rightarrow> r\<lparr>asked := Some q, reply := None\<rparr>
      | None \<Rightarrow> r)"
| "replay_step r (Prompted p) =
     (case pending r of
        [] \<Rightarrow> r\<lparr>reply := None\<rparr>
      | line # rest \<Rightarrow> r\<lparr>pending := rest, reply := Some (p, lower line)\<rparr>)"
| "replay_step r (Armor_written g) =
     r\<lparr>earned :=
         (earned r \<and>
          (case asked r of
             None \<Rightarrow> False
           | Some q \<Rightarrow> reply r = Some (''> '', answer q)))\<rparr>"
| "replay_step r (Typed t) = r"
| "replay_step r (Slept s) = r"
| "replay_step r Cleared = r"
| "replay_step r (Created g) = r"
| "replay_step r (Score_written g) = r"

definition replay :: "string list \<Rightarrow> effect list \<Rightarrow> replay_state" where
  "replay lines t =
     foldl replay_step \<lparr>pending = lines, asked = None, reply = None, earned = True\<rparr> t"

text \<open>
  The invariant: the replay of the trace so far has found every armor earned, and the
  lines it has not taken are the lines still waiting on standard input.
\<close>

definition in_step :: "string list \<Rightarrow> world \<Rightarrow> bool" where
  "in_step lines w =
     (earned (replay lines (trace w)) \<and> pending (replay lines (trace w)) = stdin w)"

lemma replay_append: "replay lines (t @ t') = foldl replay_step (replay lines t) t'"
  by (simp add: replay_def)

lemma replay_narration:
  "foldl replay_step r (concat (map (\<lambda>line. [Typed line, Slept p]) ls)) = r"
  by (induction ls arbitrary: r) simp_all

text \<open>What one prompt and one printed line do to the replay.\<close>

lemma replay_step_Prompted:
  "pending r = [] \<Longrightarrow> replay_step r (Prompted p) = r\<lparr>reply := None\<rparr>"
  "pending r = l # ls \<Longrightarrow>
     replay_step r (Prompted p) = r\<lparr>pending := ls, reply := Some (p, lower l)\<rparr>"
  by simp_all

lemma replay_step_Printed:
  "pending (replay_step r (Printed s)) = pending r"
  "earned (replay_step r (Printed s)) = earned r"
  "asking s = None \<Longrightarrow> replay_step r (Printed s) = r"
  "asking s = Some q \<Longrightarrow> replay_step r (Printed s) = r\<lparr>asked := Some q, reply := None\<rparr>"
  by (simp_all split: option.split)

declare replay_step.simps(1,2) [simp del]

lemma in_step_library [simp]:
  "in_step lines (time_sleep s w) = in_step lines w"
  "in_step lines (type_text t w) = in_step lines w"
  "in_step lines (clear_screen w) = in_step lines w"
  "in_step lines (print_lines_with_pause ls p w) = in_step lines w"
  "in_step lines (print_pause t w) = in_step lines w"
  "in_step lines (emit (Created g) w) = in_step lines w"
  "in_step lines (emit (Score_written g) w) = in_step lines w"
  "in_step lines (intro gs w) = in_step lines w"
  "in_step lines (show_path_choices w) = in_step lines w"
  by (simp_all add: in_step_def replay_append replay_narration intro_def show_path_choices_def)

lemma in_step_print [simp]: "in_step lines (print s w) = in_step lines w"
  by (simp add: in_step_def replay_append replay_step_Printed)

lemma in_step_bind:
  assumes "in_step lines (final m)"
    and "\<And>x w'. m = Return x w' \<Longrightarrow> in_step lines w' \<Longrightarrow> in_step lines (final (f x w'))"
  shows "in_step lines (final (bind m f))"
  using assms by (cases m) simp_all

lemma in_step_quiet:
  "in_step lines w \<Longrightarrow> in_step lines (final (input prompt w))"
  "in_step lines w \<Longrightarrow> in_step lines (final (random_random w))"
  "in_step lines w \<Longrightarrow> in_step lines (final (random_choice seq w))"
  "in_step lines w \<Longrightarrow> in_step lines (final (new_GameState w))"
  by (auto simp: in_step_def input_def random_random_def random_choice_def new_GameState_def
        replay_append replay_step_Prompted split: list.splits)

text \<open>The prompts of \<open>get_valid_input\<close>: one line taken per prompt, the last one returned.\<close>

lemma reprompts_simps:
  "reprompts p v e [] = [Prompted p]"
  "reprompts p v e (l # ls) =
     (if invalid v l then Prompted p # Printed (error_text v e) # reprompts p v e ls
      else [Prompted p])"
  by (simp_all add: reprompts_def)

lemma replay_reprompts:
  assumes "pending r = ls"
  shows "earned (foldl replay_step r (reprompts p v e ls)) = earned r \<and>
     (dropWhile (invalid v) ls = [] \<longrightarrow>
        pending (foldl replay_step r (reprompts p v e ls)) = []) \<and>
     (\<forall>l rest. dropWhile (invalid v) ls = l # rest \<longrightarrow>
        pending (foldl replay_step r (reprompts p v e ls)) = rest \<and>
        reply (foldl replay_step r (reprompts p v e ls)) = Some (p, lower l) \<and>
        (asking (error_text v e) = None \<longrightarrow>
           asked (foldl replay_step r (reprompts p v e ls)) = asked r))"
  using assms
proof (induction ls arbitrary: r)
  case Nil
  then show ?case
    by (simp add: reprompts_simps replay_step_Prompted)
next
  case (Cons l ls)
  show ?case
  proof (cases "invalid v l")
    case False
    with Cons.prems show ?thesis
      by (simp add: reprompts_simps replay_step_Prompted)
  next
    case True
    let ?r = "replay_step (replay_step r (Prompted p)) (Printed (error_text v e))"
    from Cons.prems have p: "pending ?r = ls"
      by (simp add: replay_step_Printed replay_step_Prompted)
    from Cons.prems have e: "earned ?r = earned r"
      by (simp add: replay_step_Printed replay_step_Prompted)
    have a: "asked ?r = asked r" if "asking (error_text v e) = None"
      using Cons.prems that by (simp add: replay_step_Printed replay_step_Prompted)
    have f: "foldl replay_step r (reprompts p v e (l # ls)) =
        foldl replay_step ?r (reprompts p v e ls)"
      using True by (simp add: reprompts_simps)
    have d: "dropWhile (invalid v) (l # ls) = dropWhile (invalid v) ls"
      using True by simp
    from Cons.IH[OF p] e a show ?thesis
      unfolding f d by auto
  qed
qed

lemma in_step_get_valid_input:
  assumes "in_step lines w"
  shows "in_step lines (final (get_valid_input prompt valid_options error_msg w))"
proof -
  let ?f = "final (get_valid_input prompt valid_options error_msg w)"
  from assms have p: "pending (replay lines (trace w)) = stdin w"
    and e: "earned (replay lines (trace w))"
    by (simp_all add: in_step_def)
  have t: "trace ?f = trace w @ reprompts prompt valid_options error_msg (stdin w)"
    by (rule get_valid_input_final(1))
  have s: "stdin ?f =
      (case dropWhile (invalid valid_options) (stdin w) of [] \<Rightarrow> [] | l # rest \<Rightarrow> rest)"
  proof (cases "dropWhile (invalid valid_options) (stdin w)")
    case Nil
    show ?thesis
      unfolding get_valid_input_refines get_valid_input_spec_def Let_def Nil by simp
  next
    case (Cons l rest)
    show ?thesis
      unfolding get_valid_input_refines get_valid_input_spec_def Let_def Cons by simp
  qed
  from replay_reprompts[OF p, of prompt valid_options error_msg] e show ?thesis
    unfolding in_step_def t s replay_append
    by (auto split: list.split)
qed

lemma replay_get_valid_input_Return:
  assumes "get_valid_input prompt valid_options error_msg w = Return c w'"
    and "in_step lines w"
    and "asking (error_text valid_options error_msg) = None"
  shows "reply (replay lines (trace w')) = Some (prompt, c)"
    and "asked (replay lines (trace w')) = asked (replay lines (trace w))"
proof -
  from assms(2) have p: "pending (replay lines (trace w)) = stdin w"
    by (simp add: in_step_def)
  from assms(1) obtain l rest
    where d: "dropWhile (invalid valid_options) (stdin w) = l # rest" and c: "c = lower l"
      and t: "trace w' = trace w @ reprompts prompt valid_options error_msg (stdin w)"
    by (cases "dropWhile (invalid valid_options) (stdin w)")
       (auto simp: get_valid_input_refines get_valid_input_spec_def Let_def)
  from replay_reprompts[OF p, of prompt valid_options error_msg] d c t assms(3)
  show "reply (replay lines (trace w')) = Some (prompt, c)"
    and "asked (replay lines (trace w')) = asked (replay lines (trace w))"
    by (simp_all add: replay_append)
qed

text \<open>
  The one assignment to \<open>has_fire_armor\<close>, in \<open>start_trivia_game\<close>: the question drawn has
  just been displayed and the line read at "> " is its answer.
\<close>

lemma asking_options: "q \<in> set questions \<Longrightarrow> asking (options q) = Some q"
  by (auto simp: asking_def questions_def)

lemma asking_error_text: "asking (error_text [''a'', ''b'', ''c''] None) = None"
  by (simp add: asking_def questions_def error_text_def)

lemma in_step_armor:
  assumes "in_step lines w1"
    and "random_choice questions w0 = Return q w1"
    and "get_valid_input ''> '' [''a'', ''b'', ''c''] None
           (print (options q) (print_pause (trivia.question q) w1)) = Return u w2"
    and "u = answer q"
  shows "in_step lines
     (final (Return g
        (emit (Armor_written g) (emit (Score_written g') (print_lines_with_pause ls p w2)))))"
proof -
  let ?w = "print (options q) (print_pause (trivia.question q) w1)"
  from random_choice_member(1)[OF assms(2)] have "q \<in> set questions"
    by (simp add: questions_def)
  then have q: "asking (options q) = Some q"
    by (rule asking_options)
  from assms(1) have w: "in_step lines ?w"
    by simp
  from q have "asked (replay lines (trace ?w)) = Some q"
    by (simp add: replay_append replay_step_Printed)
  with replay_get_valid_input_Return[OF assms(3) w asking_error_text] assms(4)
  have "reply (replay lines (trace w2)) = Some (''> '', answer q)"
    and "asked (replay lines (trace w2)) = Some q"
    by simp_all
  moreover from in_step_get_valid_input[OF w, of "''> ''" "[''a'', ''b'', ''c'']" None] assms(3)
  have "in_step lines w2"
    by simp
  ultimately show ?thesis
    by (simp add: in_step_def replay_append replay_narration)
qed

lemma game_in_step:
  "in_step lines w \<Longrightarrow> in_step lines (final (handle_play_again gs b w))"
  "in_step lines w \<Longrightarrow> in_step lines (final (reset_game gs w))"
  "in_step lines w \<Longrightarrow> in_step lines (final (handle_jump_sequence cb gs w))"
  "in_step lines w \<Longrightarrow> in_step lines (final (enter_firewall_path gs w))"
  "in_step lines w \<Longrightarrow> in_step lines (final (handle_bridge_crossing gs w))"
  "in_step lines w \<Longrightarrow> in_step lines (final (handle_firewall_obstacle gs w))"
  "in_step lines w \<Longrightarrow> in_step lines (final (firewall_obstacle_loop gs w))"
  "in_step lines w \<Longrightarrow> in_step lines (final (handle_fan_obstacle gs w))"
  "in_step lines w \<Longrightarrow> in_step lines (final (fan_obstacle_loop gs w))"
  "in_step lines w \<Longrightarrow> in_step lines (final (enter_core_access gs w))"
  "in_step lines w \<Longrightarrow> in_step lines (final (handle_random_event gs w))"
  "in_step lines w \<Longrightarrow> in_step lines (final (return_to_core_access gs w))"
  "in_step lines w \<Longrightarrow> in_step lines (final (start_trivia_game gs w))"
  "in_step lines w \<Longrightarrow> in_step lines (final (main_game_loop gs w))"
proof (induct gs b w and gs w and cb gs w and gs w and gs w and gs w and gs w and gs w and gs w and gs w and gs w and gs w and gs w and gs w rule: game_induct)
  case (1 game_state is_ending w)
  note IH = "1.hyps"[unfolded Let_def is_game_over_def modify_score_def prod.case] and pre = "1.prems"
  show ?case
    apply (subst handle_play_again.simps)
    apply (insert pre)
    apply (unfold Let_def is_game_over_def modify_score_def prod.case)
    apply (rule in_step_bind in_step_get_valid_input in_step_quiet | (rule in_step_armor; assumption)
        | (split if_split callback.split, intro conjI impI)
        | (rule IH; (assumption | rule refl | simp))
        | simp)+
    done
next
  case (2 game_state w)
  note IH = "2.hyps"[unfolded Let_def is_game_over_def modify_score_def prod.case] and pre = "2.prems"
  show ?case
    apply (subst reset_game.simps)
    apply (insert pre)
    apply (unfold Let_def is_game_over_def modify_score_def prod.case)
    apply (rule in_step_bind in_step_get_valid_input in_step_quiet | (rule in_step_armor; assumption)
        | (split if_split callback.split, intro conjI impI)
        | (rule IH; (assumption | rule refl | simp))
        | simp)+
    done
next
  case (3 cb game_state w)
  note IH = "3.hyps"[unfolded Let_def is_game_over_def modify_score_def prod.case] and pre = "3.prems"
  show ?case
    apply (subst handle_jump_sequence.simps)
    apply (insert pre)
    apply (unfold Let_def is_game_over_def modify_score_def prod.case)
    apply (rule in_step_bind in_step_get_valid_input in_step_quiet | (rule in_step_armor; assumption)
        | (split if_split callback.split, intro conjI impI)
        | (rule IH; (assumption | rule refl | simp))
        | simp)+
    done
next
  case (4 game_state w)
  note IH = "4.hyps"[unfolded Let_def is_game_over_def modify_score_def prod.case] and pre = "4.prems"
  show ?case
    apply (subst enter_firewall_path.simps)
    apply (insert pre)
    apply (unfold Let_def is_game_over_def modify_score_def prod.case)
    apply (rule in_step_bind in_step_get_valid_input in_step_quiet | (rule in_step_armor; assumption)
        | (split if_split callback.split, intro conjI impI)
        | (rule IH; (assumption | rule refl | simp))
        | simp)+
    done
next
  case (5 game_state w)
  note IH = "5.hyps"[unfolded Let_def is_game_over_def modify_score_def prod.case] and pre = "5.prems"
  show ?case
    apply (subst handle_bridge_crossing.simps)
    apply (insert pre)
    apply (unfold Let_def is_game_over_def modify_score_def prod.case)
    apply (rule in_step_bind in_step_get_valid_input in_step_quiet | (rule in_step_armor; assumption)
        | (split if_split callback.split, intro conjI impI)
        | (rule IH; (assumption | rule refl | simp))
        | simp)+
    done
next
  case (6 game_state w)
  note IH = "6.hyps"[unfolded Let_def is_game_over_def modify_score_def prod.case] and pre = "6.prems"
  show ?case
    apply (subst handle_firewall_obstacle.simps)
    apply (insert pre)
    apply (unfold Let_def is_game_over_def modify_score_def prod.case)
    apply (rule in_step_bind in_step_get_valid_input in_step_quiet | (rule in_step_armor; assumption)
        | (split if_split callback.split, intro conjI impI)
        | (rule IH; (assumption | rule refl | simp))
        | simp)+
    done
next
  case (7 game_state w)
  note IH = "7.hyps"[unfolded Let_def is_game_over_def modify_score_def prod.case] and pre = "7.prems"
  show ?case
    apply (subst firewall_obstacle_loop.simps)
    apply (insert pre)
    apply (unfold Let_def is_game_over_def modify_score_def prod.case)
    apply (rule in_step_bind in_step_get_valid_input in_step_quiet | (rule in_step_armor; assumption)
        | (split if_split callback.split, intro conjI impI)
        | (rule IH; (assumption | rule refl | simp))
        | simp)+
    done
next
  case (8 game_state w)
  note IH = "8.hyps"[unfolded Let_def is_game_over_def modify_score_def prod.case] and pre = "8.prems"
  show ?case
    apply (subst handle_fan_obstacle.simps)
    apply (insert pre)
    apply (unfold Let_def is_game_over_def modify_score_def prod.case)
    apply (rule in_step_bind in_step_get_valid_input in_step_quiet | (rule in_step_armor; assumption)
        | (split if_split callback.split, intro conjI impI)
        | (rule IH; (assumption | rule refl | simp))
        | simp)+
    done
next
  case (9 game_state w)
  note IH = "9.hyps"[unfolded Let_def is_game_over_def modify_score_def prod.case] and pre = "9.prems"
  show ?case
    apply (subst fan_obstacle_loop.simps)
    apply (insert pre)
    apply (unfold Let_def is_game_over_def modify_score_def prod.case)
    apply (rule in_step_bind in_step_get_valid_input in_step_quiet | (rule in_step_armor; assumption)
        | (split if_split callback.split, intro conjI impI)
        | (rule IH; (assumption | rule refl | simp))
        | simp)+
    done
next
  case (10 game_state w)
  note IH = "10.hyps"[unfolded Let_def is_game_over_def modify_score_def prod.case] and pre = "10.prems"
  show ?case
    apply (subst enter_core_access.simps)
    apply (insert pre)
    apply (unfold Let_def is_game_over_def modify_score_def prod.case)
    apply (rule in_step_bind in_step_get_valid_input in_step_quiet | (rule in_step_armor; assumption)
        | (split if_split callback.split, intro conjI impI)
        | (rule IH; (assumption | rule refl | simp))
        | simp)+
    done
next
  case (11 game_state w)
  note IH = "11.hyps"[unfolded Let_def is_game_over_def modify_score_def prod.case] and pre = "11.prems"
  show ?case
    apply (subst handle_random_event.simps)
    apply (insert pre)
    apply (unfold Let_def is_game_over_def modify_score_def prod.case)
    apply (rule in_step_bind in_step_get_valid_input in_step_quiet | (rule in_step_armor; assumption)
        | (split if_split callback.split, intro conjI impI)
        | (rule IH; (assumption | rule refl | simp))
        | simp)+
    done
next
  case (12 game_state w)
  note IH = "12.hyps"[unfolded Let_def is_game_over_def modify_score_def prod.case] and pre = "12.prems"
  show ?case
    apply (subst return_to_core_access.simps)
    apply (insert pre)
    apply (unfold Let_def is_game_over_def modify_score_def prod.case)
    apply (rule in_step_bind in_step_get_valid_input in_step_quiet | (rule in_step_armor; assumption)
        | (split if_split callback.split, intro conjI impI)
        | (rule IH; (assumption | rule refl | simp))
        | simp)+
    done
next
  case (13 game_state w)
  note IH = "13.hyps"[unfolded Let_def is_game_over_def modify_score_def prod.case] and pre = "13.prems"
  show ?case
    apply (subst start_trivia_game.simps)
    apply (insert pre)
    apply (unfold Let_def is_game_over_def modify_score_def prod.case)
    apply (rule in_step_bind in_step_get_valid_input in_step_quiet | (rule in_step_armor; assumption)
        | (split if_split callback.split, intro conjI impI)
        | (rule IH; (assumption | rule refl | simp))
        | simp)+
    done
next
  case (14 game_state w)
  note IH = "14.hyps"[unfolded Let_def is_game_over_def modify_score_def prod.case] and pre = "14.prems"
  show ?case
    apply (subst main_game_loop.simps)
    apply (insert pre)
    apply (unfold Let_def is_game_over_def modify_score_def prod.case)
    apply (rule in_step_bind in_step_get_valid_input in_step_quiet | (rule in_step_armor; assumption)
        | (split if_split callback.split, intro conjI impI)
        | (rule IH; (assumption | rule refl | simp))
        | simp)+
    done
qed

lemma main_in_step: "in_step lines (final (main (initial_world lines draws)))"
  unfolding main_def Let_def
proof (rule in_step_bind)
  have "in_step lines (clear_screen (initial_world lines draws))"
    by (simp add: in_step_def replay_def initial_world_def)
  then show "in_step lines (final (new_GameState (clear_screen (initial_world lines draws))))"
    by (rule in_step_quiet(4))
next
  fix x w'
  assume "in_step lines w'"
  then have "in_step lines (intro x (clear_screen w'))"
    by simp
  then show "in_step lines (final (main_game_loop x (intro x (clear_screen w'))))"
    by (rule game_in_step(14))
qed

text \<open>
  The replay does tell an unearned armor: one assigned after "2" at the firewall menu, or
  after the wrong answer "c" to the CPU question, is found.
\<close>

lemma replay_finds_unearned_armor:
  "\<not> earned (replay [''2'']
      [Printed ''Do you want to:'', Printed ''1. Risk walking through the fire'',
       Printed ''2. Go back'', Prompted ''> '',
       Armor_written \<lparr>score = 10, has_fire_armor = True\<rparr>])"
  "\<not> earned (replay [''c'']
      [Typed ''What does CPU stand for?'', Slept 1.5,
       Printed (''A) Central Processing Unit  B) Computer Personal Unit  '' @
                ''C) Central Peripheral Unit''),
       Prompted ''> '',
       Armor_written \<lparr>score = 5, has_fire_armor = True\<rparr>])"
  by (simp_all add: replay_def replay_step.simps asking_def questions_def lower_def lower_char_def)

text \<open>
  C3. A game state object starts without the armor. In every run of the program, on any
  input and any random draws, the journal keeps the armor discipline: within a session
  (from one creation of a game state to the next) \<open>has_fire_armor\<close> is assigned at most
  once, the assignment makes it true, and no assignment ever takes it back to false. Every
  assignment of the run is earned: replaying the trace against the input, at each
  \<open>Armor_written\<close> the latest line read was read at the trivia prompt "> ", after the
  options of a question of the pool were displayed, and is that question's answer. The
  trivia scene does not make the assignment on a wrong answer: the game state it passes on
  differs from the one it received in the score only.
\<close>

theorem armor_set_at_most_once_per_session:
  "\<not> has_fire_armor GameState \<and>
   armor_discipline False (journal (final (main (initial_world lines draws)))) \<and>
   earned (replay lines (trace (final (main (initial_world lines draws))))) \<and>
   (\<forall>gs w q w1 u w2.
      random_choice questions
        (print_pause ''To claim it, pass a fun trivia question.'' w) = Return q w1 \<longrightarrow>
      get_valid_input ''> '' [''a'', ''b'', ''c''] None
        (print (options q) (print_pause (question q) w1)) = Return u w2 \<longrightarrow>
      u \<noteq> answer q \<longrightarrow>
      start_trivia_game gs w =
        return_to_core_access (gs\<lparr>score := score gs - 5\<rparr>)
          (emit (Score_written (gs\<lparr>score := score gs - 5\<rparr>))
            (print_lines_with_pause
               [''Incorrect! The armor stays locked.'',
                ''The floor splits open!''] 1.5 w2)))"
proof (intro conjI allI impI)
  show "\<not> has_fire_armor GameState"
    by (simp add: GameState_def)
  from main_safe[of lines draws]
  show "armor_discipline False (journal (final (main (initial_world lines draws))))"
    by (simp add: safe_def)
  from main_in_step[of lines draws]
  show "earned (replay lines (trace (final (main (initial_world lines draws)))))"
    by (simp add: in_step_def)
next
  fix gs w q w1 u w2
  assume "random_choice questions
        (print_pause ''To claim it, pass a fun trivia question.'' w) = Return q w1"
    and "get_valid_input ''> '' [''a'', ''b'', ''c''] None
        (print (options q) (print_pause (question q) w1)) = Return u w2"
    and "u \<noteq> answer q"
  with start_trivia_game_answered[of w q w1 u w2 gs]
  show "start_trivia_game gs w =
        return_to_core_access (gs\<lparr>score := score gs - 5\<rparr>)
          (emit (Score_written (gs\<lparr>score := score gs - 5\<rparr>))
            (print_lines_with_pause
               [''Incorrect! The armor stays locked.'',
                ''The floor splits open!''] 1.5 w2))"
    by simp
qed

text \<open>
  The run in which the armor is won: its journal has one creation and one assignment to the
  flag, and the replay finds the assignment earned (the line "a" read at "> " for the CPU
  question). And a wrong answer ("c" to the CPU question) with the armor already held
  leaves the flag true.
\<close>

theorem armor_set_at_most_once_per_session_witness:
  "journal (final (main (initial_world [''2'', ''y'', ''a'', ''n'', ''2'']
      (\<lambda>k. if k = 0 then 2 ^ 52 else 0)))) =
     [Created \<lparr>score = 10, has_fire_armor = False\<rparr>,
      Score_written \<lparr>score = 15, has_fire_armor = False\<rparr>,
      Armor_written \<lparr>score = 15, has_fire_armor = True\<rparr>] \<and>
   armor_discipline False
     [Created \<lparr>score = 10, has_fire_armor = False\<rparr>,
      Score_written \<lparr>score = 15, has_fire_armor = False\<rparr>,
      Armor_written \<lparr>score = 15, has_fire_armor = True\<rparr>] \<and>
   earned (replay [''2'', ''y'', ''a'', ''n'', ''2'']
     (trace (final (main (initial_world [''2'', ''y'', ''a'', ''n'', ''2'']
        (\<lambda>k. if k = 0 then 2 ^ 52 else 0)))))) \<and>
   start_trivia_game \<lparr>score = 15, has_fire_armor = True\<rparr> (initial_world [''c''] (\<lambda>k. 0)) =
     return_to_core_access \<lparr>score = 10, has_fire_armor = True\<rparr>
       \<lparr>stdin = [], rng = \<lambda>k. 0, drawn = 1,
         trace =
           [Typed ''To claim it, pass a fun trivia question.'', Slept 1.5,
            Typed ''What does CPU stand for?'', Slept 1.5,
            Printed (''A) Central Processing Unit  B) Computer Personal Unit  '' @
                     ''C) Central Peripheral Unit''),
            Prompted ''> '',
            Typed ''Incorrect! The armor stays locked.'', Slept 1.5,
            Typed ''The floor splits open!'', Slept 1.5,
            Score_written \<lparr>score = 10, has_fire_armor = True\<rparr>]\<rparr>"
proof -
  let ?lines = "[''2'', ''y'', ''a'', ''n'', ''2'']"
  let ?draws = "\<lambda>k::nat. if k = 0 then 2 ^ 52 else (0::nat)"
  let ?w = "initial_world [''c''] (\<lambda>k. 0)"
  let ?q = "questions ! 0"
  let ?w1 = "\<lparr>stdin = [''c''], rng = \<lambda>k. 0, drawn = 1,
         trace = [Typed ''To claim it, pass a fun trivia question.'', Slept 1.5]\<rparr>"
  let ?w2 = "\<lparr>stdin = [], rng = \<lambda>k. 0, drawn = 1,
         trace =
           [Typed ''To claim it, pass a fun trivia question.'', Slept 1.5,
            Typed ''What does CPU stand for?'', Slept 1.5,
            Printed (''A) Central Processing Unit  B) Computer Personal Unit  '' @
                     ''C) Central Peripheral Unit''),
            Prompted ''> '']\<rparr>"
  note t = armor_set_at_most_once_per_session[of ?lines ?draws]
  from t have "armor_discipline False (journal (final (main (initial_world ?lines ?draws))))"
    by blast
  then have d: "armor_discipline False
     [Created \<lparr>score = 10, has_fire_armor = False\<rparr>,
      Score_written \<lparr>score = 15, has_fire_armor = False\<rparr>,
      Armor_written \<lparr>score = 15, has_fire_armor = True\<rparr>]"
    by (simp only: run_with_armor)
  from t have r: "earned (replay ?lines (trace (final (main (initial_world ?lines ?draws)))))"
    by blast
  have h1: "random_choice questions
      (print_pause ''To claim it, pass a fun trivia question.'' ?w) = Return ?q ?w1"
    by (simp add: library_defs initial_world_def questions_def)
  have h2: "get_valid_input ''> '' [''a'', ''b'', ''c''] None
      (print (options ?q) (print_pause (question ?q) ?w1)) = Return ''c'' ?w2"
    by (simp add: run_simps)
  have h3: "''c'' \<noteq> answer ?q"
    by (simp add: questions_def)
  from t h1 h2 h3
  have "start_trivia_game \<lparr>score = 15, has_fire_armor = True\<rparr> ?w =
        return_to_core_access (\<lparr>score = 15, has_fire_armor = True\<rparr>\<lparr>score := score \<lparr>score = 15, has_fire_armor = True\<rparr> - 5\<rparr>)
          (emit (Score_written (\<lparr>score = 15, has_fire_armor = True\<rparr>\<lparr>score := score \<lparr>score = 15, has_fire_armor = True\<rparr> - 5\<rparr>))
            (print_lines_with_pause
               [''Incorrect! The armor stays locked.'',
                ''The floor splits open!''] 1.5 ?w2))"
    by blast
  then have s: "start_trivia_game \<lparr>score = 15, has_fire_armor = True\<rparr> ?w =
     return_to_core_access \<lparr>score = 10, has_fire_armor = True\<rparr>
       \<lparr>stdin = [], rng = \<lambda>k. 0, drawn = 1,
         trace =
           [Typed ''To claim it, pass a fun trivia question.'', Slept 1.5,
            Typed ''What does CPU stand for?'', Slept 1.5,
            Printed (''A) Central Processing Unit  B) Computer Personal Unit  '' @
                     ''C) Central Peripheral Unit''),
            Prompted ''> '',
            Typed ''Incorrect! The armor stays locked.'', Slept 1.5,
            Typed ''The floor splits open!'', Slept 1.5,
            Score_written \<lparr>score = 10, has_fire_armor = True\<rparr>]\<rparr>"
    by (simp add: library_defs)
  from run_with_armor d r s show ?thesis
    by blast
qed

subsection \<open>The button, repeated trivia and the score\<close>

lemma enter_core_access_offers_button:
  assumes "\<not> has_fire_armor gs"
  shows "prefix
      (trace w @
        [Typed ''You enter the Core Access tunnel.'', Slept 1.5,
         Typed ''It's dark and quiet, but you spot a button...'', Slept 1.5,
         Prompted ''Do you press the button? (Y/N): ''])
      (trace (final (enter_core_access gs w)))"
proof -
  let ?w = "print_pause ''It's dark and quiet, but you spot a button...''
              (print_pause ''You enter the Core Access tunnel.'' w)"
  let ?k = "\<lambda>choice w.
              if choice = ''y'' then handle_random_event gs w
              else handle_fan_obstacle gs
                     (print_pause ''You don't press the button and continue.'' w)"
  have "prefix (trace ?w @ [Prompted ''Do you press the button? (Y/N): ''])
      (trace (final (bind (get_valid_input ''Do you press the button? (Y/N): ''
                             [''y'', ''n''] None ?w) ?k)))"
    by (rule prompt_then) (auto intro!: game_trace_grows(8) game_trace_grows(11))
  moreover have "enter_core_access gs w =
      bind (get_valid_input ''Do you press the button? (Y/N): '' [''y'', ''n''] None ?w) ?k"
    using assms by (subst enter_core_access.simps) (simp add: Let_def cong: if_cong)
  ultimately show ?thesis
    by simp
qed

text \<open>
  C10, as stated, fails in its last part: no run of the program ever holds a negative
  score. \<open>enter_core_access\<close> is called from \<open>main_game_loop\<close> only, after the game-over
  check, so the trivia scene is entered with a positive score (5 or 10) and at most one
  penalty falls between two checks.
\<close>

theorem score_never_negative:
  "\<not> (\<exists>lines draws. \<exists>g\<in>set (states (final (main (initial_world lines draws)))). score g < 0)"
proof
  assume "\<exists>lines draws. \<exists>g\<in>set (states (final (main (initial_world lines draws)))). score g < 0"
  then obtain lines draws g
    where g: "g \<in> set (states (final (main (initial_world lines draws))))" and neg: "score g < 0"
    by blast
  from main_safe[of lines draws] g have "score g \<in> {0, 5, 10, 15}"
    by (simp add: safe_def)
  with neg show False
    by auto
qed

text \<open>
  C10, amended. Whenever \<open>enter_core_access\<close> is entered without the armor, whatever
  happened before, the button offer is presented. Trivia can run more than once in a
  session (the run below has two encounters in one session), and every wrong answer
  subtracts 5. But the score never falls below zero: in every run every value a game state
  takes has a score of 0, 5, 10 or 15.
\<close>

theorem button_offered_again_and_score_bounded:
  "(\<not> has_fire_armor gs \<longrightarrow>
      prefix
        (trace w @
          [Typed ''You enter the Core Access tunnel.'', Slept 1.5,
           Typed ''It's dark and quiet, but you spot a button...'', Slept 1.5,
           Prompted ''Do you press the button? (Y/N): ''])
        (trace (final (enter_core_access gs w)))) \<and>
   journal (final (main (initial_world
      [''2'', ''y'', ''b'', ''y'', ''n'', ''2'', ''y'', ''b'', ''n'', ''2'', ''n'']
      (\<lambda>k. if even k then 2 ^ 52 else 0)))) =
     [Created \<lparr>score = 10, has_fire_armor = False\<rparr>,
      Score_written \<lparr>score = 5, has_fire_armor = False\<rparr>,
      Score_written \<lparr>score = 0, has_fire_armor = False\<rparr>] \<and>
   (\<forall>q w1 u w2.
      random_choice questions
        (print_pause ''To claim it, pass a fun trivia question.'' w) = Return q w1 \<longrightarrow>
      get_valid_input ''> '' [''a'', ''b'', ''c''] None
        (print (options q) (print_pause (question q) w1)) = Return u w2 \<longrightarrow>
      u \<noteq> answer q \<longrightarrow>
      (\<exists>w3. start_trivia_game gs w =
         return_to_core_access (gs\<lparr>score := score gs - 5\<rparr>) w3)) \<and>
   (\<forall>g\<in>set (states (final (main (initial_world lines draws)))). score g \<in> {0, 5, 10, 15})"
proof (intro conjI allI impI ballI)
  assume "\<not> has_fire_armor gs"
  then show "prefix
        (trace w @
          [Typed ''You enter the Core Access tunnel.'', Slept 1.5,
           Typed ''It's dark and quiet, but you spot a button...'', Slept 1.5,
           Prompted ''Do you press the button? (Y/N): ''])
        (trace (final (enter_core_access gs w)))"
    by (rule enter_core_access_offers_button)
next
  show "journal (final (main (initial_world
      [''2'', ''y'', ''b'', ''y'', ''n'', ''2'', ''y'', ''b'', ''n'', ''2'', ''n'']
      (\<lambda>k. if even k then 2 ^ 52 else 0)))) =
     [Created \<lparr>score = 10, has_fire_armor = False\<rparr>,
      Score_written \<lparr>score = 5, has_fire_armor = False\<rparr>,
      Score_written \<lparr>score = 0, has_fire_armor = False\<rparr>]"
    by (rule run_with_two_trivia_rounds)
next
  fix q w1 u w2
  assume "random_choice questions
        (print_pause ''To claim it, pass a fun trivia question.'' w) = Return q w1"
    and "get_valid_input ''> '' [''a'', ''b'', ''c''] None
        (print (options q) (print_pause (question q) w1)) = Return u w2"
    and "u \<noteq> answer q"
  with start_trivia_game_answered[of w q w1 u w2 gs]
  have "start_trivia_game gs w =
        return_to_core_access (gs\<lparr>score := score gs - 5\<rparr>)
          (emit (Score_written (gs\<lparr>score := score gs - 5\<rparr>))
            (print_lines_with_pause
               [''Incorrect! The armor stays locked.'',
                ''The floor splits open!''] 1.5 w2))"
    by simp
  then show "\<exists>w3. start_trivia_game gs w =
         return_to_core_access (gs\<lparr>score := score gs - 5\<rparr>) w3"
    by (rule exI)
next
  fix g
  assume "g \<in> set (states (final (main (initial_world lines draws))))"
  with main_safe[of lines draws] show "score g \<in> {0, 5, 10, 15}"
    by (simp add: safe_def)
qed

text \<open>
  Core Access entered with score 5 and no armor (one trivia round already lost): the button
  is offered. And in the run with two lost trivia rounds the scores recorded are 10, 5, 0.
\<close>

theorem button_offered_again_and_score_bounded_witness:
  "prefix
     [Typed ''You enter the Core Access tunnel.'', Slept 1.5,
      Typed ''It's dark and quiet, but you spot a button...'', Slept 1.5,
      Prompted ''Do you press the button? (Y/N): '']
     (trace (final (enter_core_access \<lparr>score = 5, has_fire_armor = False\<rparr>
        (initial_world [] (\<lambda>k. 0))))) \<and>
   states (final (main (initial_world
      [''2'', ''y'', ''b'', ''y'', ''n'', ''2'', ''y'', ''b'', ''n'', ''2'', ''n'']
      (\<lambda>k. if even k then 2 ^ 52 else 0)))) =
     [\<lparr>score = 10, has_fire_armor = False\<rparr>,
      \<lparr>score = 5, has_fire_armor = False\<rparr>,
      \<lparr>score = 0, has_fire_armor = False\<rparr>] \<and>
   score \<lparr>score = 0, has_fire_armor = False\<rparr> \<in> {0, 5, 10, 15}"
proof -
  let ?lines = "[''2'', ''y'', ''b'', ''y'', ''n'', ''2'', ''y'', ''b'', ''n'', ''2'', ''n'']"
  let ?draws = "\<lambda>k::nat. if even k then 2 ^ 52 else (0::nat)"
  note t = button_offered_again_and_score_bounded[of "\<lparr>score = 5, has_fire_armor = False\<rparr>"
    "initial_world [] (\<lambda>k. 0)" ?lines ?draws]
  have s: "states (final (main (initial_world ?lines ?draws))) =
     [\<lparr>score = 10, has_fire_armor = False\<rparr>,
      \<lparr>score = 5, has_fire_armor = False\<rparr>,
      \<lparr>score = 0, has_fire_armor = False\<rparr>]"
    by (simp add: states_def run_with_two_trivia_rounds)
  from t have "prefix
     (trace (initial_world [] (\<lambda>k. 0)) @
      [Typed ''You enter the Core Access tunnel.'', Slept 1.5,
       Typed ''It's dark and quiet, but you spot a button...'', Slept 1.5,
       Prompted ''Do you press the button? (Y/N): ''])
     (trace (final (enter_core_access \<lparr>score = 5, has_fire_armor = False\<rparr>
        (initial_world [] (\<lambda>k. 0)))))"
    by simp
  then have p: "prefix
     [Typed ''You enter the Core Access tunnel.'', Slept 1.5,
      Typed ''It's dark and quiet, but you spot a button...'', Slept 1.5,
      Prompted ''Do you press the button? (Y/N): '']
     (trace (final (enter_core_access \<lparr>score = 5, has_fire_armor = False\<rparr>
        (initial_world [] (\<lambda>k. 0)))))"
    by (simp add: initial_world_def)
  from t have "\<forall>g\<in>set (states (final (main (initial_world ?lines ?draws)))).
      score g \<in> {0, 5, 10, 15}"
    by blast
  with s have "score \<lparr>score = 0, has_fire_armor = False\<rparr> \<in> {0, 5, 10, 15}"
    by simp
  with p s show ?thesis
    by blast
qed

end
